theory Spec2Isabelle
  imports Complex_Main
begin

section \<open>Calendar dates\<close>

text \<open>
  A \<^verbatim>\<open>datetime.datetime\<close> value, with the attributes the program reads. The
  constructor \<open>datetime_py\<close> is Python's \<^verbatim>\<open>datetime(year, month, day, hour, minute,
  second)\<close>: it raises \<^verbatim>\<open>ValueError\<close> (here \<open>None\<close>) unless the year is in 1..9999, the
  month in 1..12, the day in 1..(days of that month, proleptic Gregorian calendar) and the
  time of day in range. All arguments the program passes come from digit strings, so
  they are natural numbers.
\<close>

record datetime =
  year :: nat
  month :: nat
  day :: nat
  hour :: nat
  minute :: nat
  second :: nat

definition is_leap :: "nat \<Rightarrow> bool" where
  "is_leap y = (y mod 4 = 0 \<and> (y mod 100 \<noteq> 0 \<or> y mod 400 = 0))"

definition days_in_month :: "nat \<Rightarrow> nat \<Rightarrow> nat" where
  "days_in_month y mo =
     (if mo = 2 then (if is_leap y then 29 else 28)
      else if mo = 4 \<or> mo = 6 \<or> mo = 9 \<or> mo = 11 then 30
      else 31)"

definition datetime_py :: "nat \<Rightarrow> nat \<Rightarrow> nat \<Rightarrow> nat \<Rightarrow> nat \<Rightarrow> nat \<Rightarrow> datetime option" where
  "datetime_py y mo d h mi s =
     (if 1 \<le> y \<and> y \<le> 9999 \<and> 1 \<le> mo \<and> mo \<le> 12 \<and> 1 \<le> d \<and> d \<le> days_in_month y mo
         \<and> h \<le> 23 \<and> mi \<le> 59 \<and> s \<le> 59
      then Some \<lparr>year = y, month = mo, day = d, hour = h, minute = mi, second = s\<rparr>
      else None)"

section \<open>Digits\<close>

text \<open>
  File names and tag values are strings of characters with code points below 256. Among
  these, the regular-expression class \<^verbatim>\<open>\d\<close> of a \<^verbatim>\<open>str\<close> pattern holds exactly the
  ten ASCII digits. \<open>int_py\<close> is \<^verbatim>\<open>int(s)\<close> on a string of digits (the only strings the
  program converts).
\<close>

definition is_digit :: "char \<Rightarrow> bool" where
  "is_digit c = (c \<in> set ''0123456789'')"

definition digit_val :: "char \<Rightarrow> nat" where
  "digit_val c = of_char c - 48"

definition int_py :: "string \<Rightarrow> nat" where
  "int_py ds = foldl (\<lambda>n c. 10 * n + digit_val c) 0 ds"

text \<open>\<^verbatim>\<open>\d{n}\<close> at the start of \<open>s\<close>: the \<open>n\<close> digits and the rest of the string.\<close>

definition take_digits :: "nat \<Rightarrow> string \<Rightarrow> (string \<times> string) option" where
  "take_digits n s =
     (if n \<le> length s \<and> list_all is_digit (take n s) then Some (take n s, drop n s) else None)"

section \<open>The date in a file name\<close>

text \<open>
  \<^verbatim>\<open>[-_]?\<close> at the start of \<open>s\<close>. The quantifier is greedy; giving the separator back
  never helps, since what follows in both patterns is a digit and the separator is none.
\<close>

definition opt_sep :: "string \<Rightarrow> string" where
  "opt_sep s = (case s of [] \<Rightarrow> [] | c # r \<Rightarrow> if c = CHR ''-'' \<or> c = CHR ''_'' then r else s)"

text \<open>
  The two patterns of \<^verbatim>\<open>get_date_from_filename\<close>, matched at the start of \<open>s\<close>; the
  result is \<^verbatim>\<open>match.groups()\<close>.
  \<^item> \<^verbatim>\<open>(\d{4})[-_]?(\d{2})[-_]?(\d{2})\<close>
  \<^item> \<^verbatim>\<open>(\d{8})\<close>
\<close>

definition match_ymd :: "string \<Rightarrow> string list option" where
  "match_ymd s =
     (case take_digits 4 s of
        None \<Rightarrow> None
      | Some (y, r1) \<Rightarrow>
          (case take_digits 2 (opt_sep r1) of
             None \<Rightarrow> None
           | Some (m, r2) \<Rightarrow>
               (case take_digits 2 (opt_sep r2) of
                  None \<Rightarrow> None
                | Some (d, r3) \<Rightarrow> Some [y, m, d])))"

definition match_8 :: "string \<Rightarrow> string list option" where
  "match_8 s = (case take_digits 8 s of None \<Rightarrow> None | Some (ds, r) \<Rightarrow> Some [ds])"

text \<open>
  \<^verbatim>\<open>re.search\<close>: the pattern is tried at every start position from left to right, and the
  match at the first position where it matches is returned.
\<close>

fun re_search :: "(string \<Rightarrow> 'a option) \<Rightarrow> string \<Rightarrow> 'a option" where
  "re_search m [] = m []"
| "re_search m (c # cs) = (case m (c # cs) of Some g \<Rightarrow> Some g | None \<Rightarrow> re_search m cs)"

definition patterns :: "(string \<Rightarrow> string list option) list" where
  "patterns = [match_ymd, match_8]"

text \<open>
  The body of the \<^verbatim>\<open>try\<close>: three groups are year, month and day; one group is cut
  into 4 + 2 + 2 characters. \<open>None\<close> is the \<^verbatim>\<open>ValueError\<close> of the constructor.
\<close>

definition date_of_groups :: "string list \<Rightarrow> datetime option" where
  "date_of_groups gs =
     (case gs of
        [y, m, d] \<Rightarrow> datetime_py (int_py y) (int_py m) (int_py d) 0 0 0
      | [date_str] \<Rightarrow>
          datetime_py (int_py (take 4 date_str)) (int_py (take 2 (drop 4 date_str)))
            (int_py (take 2 (drop 6 date_str))) 0 0 0
      | _ \<Rightarrow> None)"

text \<open>The loop over the patterns: a failed construction continues with the next one.\<close>

fun date_from_patterns :: "(string \<Rightarrow> string list option) list \<Rightarrow> string \<Rightarrow> datetime option" where
  "date_from_patterns [] filename = None"
| "date_from_patterns (p # ps) filename =
     (case re_search p filename of
        None \<Rightarrow> date_from_patterns ps filename
      | Some gs \<Rightarrow>
          (case date_of_groups gs of
             Some dt \<Rightarrow> Some dt
           | None \<Rightarrow> date_from_patterns ps filename))"

definition get_date_from_filename :: "string \<Rightarrow> datetime option" where
  "get_date_from_filename filename = date_from_patterns patterns filename"

section \<open>Python values in the metadata\<close>

text \<open>
  Python objects are modelled by what the program observes of them.
  \<^item> A component of a GPS triple is only ever passed to \<^verbatim>\<open>float()\<close>: \<open>Numeric r\<close> is any
    object that \<^verbatim>\<open>float()\<close> converts to \<open>r\<close> (an int, a float, a rational, a numeric
    string), \<open>NonNumeric\<close> any object on which \<^verbatim>\<open>float()\<close> raises \<^verbatim>\<open>TypeError\<close> or
    \<^verbatim>\<open>ValueError\<close>. Floating-point numbers are modelled as reals: rounding, infinities
    and NaN are outside the model.
  \<^item> A value of the GPS sub-mapping is a string (as the hemisphere references are), any
    other iterable (a tuple or list, given by the objects it yields), or any other
    object, which is not iterable.
  \<^item> A key of the GPS sub-mapping is a numeric tag id or a name.
  \<^item> A value of the tag mapping is a string, a mapping (the GPS sub-mapping, in insertion
    order) or any other object, of which only the truth value matters.
\<close>

datatype component = Numeric real | NonNumeric

datatype gps_value = GpsStr string | GpsSeq "component list" | GpsOther

datatype gps_key = TagId int | TagName string

datatype exif_value = ExifStr string | ExifDict "(gps_key \<times> gps_value) list" | ExifOther bool

type_synonym exif_data = "string \<rightharpoonup> exif_value"

datatype exn = AttributeError | TypeError | ValueError | OSError

section \<open>The date in the metadata\<close>

text \<open>
  \<^verbatim>\<open>datetime.strptime(s, '%Y:%m:%d %H:%M:%S')\<close>, as CPython's \<^verbatim>\<open>_strptime\<close> module
  does it: the format becomes a regular expression, each directive a group of ordered
  alternatives, the blank \<^verbatim>\<open>\s+\<close>:
  \<^item> \<^verbatim>\<open>%Y\<close>: \<^verbatim>\<open>\d\d\d\d\<close>
  \<^item> \<^verbatim>\<open>%m\<close>: \<^verbatim>\<open>1[0-2]|0[1-9]|[1-9]\<close>
  \<^item> \<^verbatim>\<open>%d\<close>: \<^verbatim>\<open>3[0-1]|[1-2]\d|0[1-9]|[1-9]| [1-9]\<close>
  \<^item> \<^verbatim>\<open>%H\<close>: \<^verbatim>\<open>2[0-3]|[0-1]\d|\d\<close>
  \<^item> \<^verbatim>\<open>%M\<close>: \<^verbatim>\<open>[0-5]\d|\d\<close>
  \<^item> \<^verbatim>\<open>%S\<close>: \<^verbatim>\<open>6[0-1]|[0-5]\d|\d\<close>

  The expression is matched at the start of the string, with backtracking; the first
  match found is taken, and it must end where the string ends. Each piece below returns
  its possible matches in the order the matcher tries them, as (value, rest of the
  string).
\<close>

definition two_digits :: "(nat \<Rightarrow> nat \<Rightarrow> bool) \<Rightarrow> string \<Rightarrow> (nat \<times> string) list" where
  "two_digits ok s =
     (case s of
        a # b # r \<Rightarrow>
          if is_digit a \<and> is_digit b \<and> ok (digit_val a) (digit_val b)
          then [(10 * digit_val a + digit_val b, r)] else []
      | _ \<Rightarrow> [])"

definition one_digit :: "(nat \<Rightarrow> bool) \<Rightarrow> string \<Rightarrow> (nat \<times> string) list" where
  "one_digit ok s =
     (case s of
        a # r \<Rightarrow> if is_digit a \<and> ok (digit_val a) then [(digit_val a, r)] else []
      | [] \<Rightarrow> [])"

definition lit :: "char \<Rightarrow> string \<Rightarrow> string list" where
  "lit c s = (case s of x # r \<Rightarrow> if x = c then [r] else [] | [] \<Rightarrow> [])"

text \<open>The characters below 256 that \<^verbatim>\<open>\s\<close> matches in a \<^verbatim>\<open>str\<close> pattern.\<close>

definition is_space :: "char \<Rightarrow> bool" where
  "is_space c = ((of_char c :: nat) \<in> set [9, 10, 11, 12, 13, 28, 29, 30, 31, 32, 133, 160])"

text \<open>\<^verbatim>\<open>\s+\<close>, greedy: the longest run of blanks first, then shorter ones.\<close>

fun spaces1 :: "string \<Rightarrow> string list" where
  "spaces1 [] = []"
| "spaces1 (c # r) = (if is_space c then spaces1 r @ [r] else [])"

definition directive_Y :: "string \<Rightarrow> (nat \<times> string) list" where
  "directive_Y s = (case take_digits 4 s of Some (ds, r) \<Rightarrow> [(int_py ds, r)] | None \<Rightarrow> [])"

definition directive_m :: "string \<Rightarrow> (nat \<times> string) list" where
  "directive_m s =
     two_digits (\<lambda>a b. a = 1 \<and> b \<le> 2) s @ two_digits (\<lambda>a b. a = 0 \<and> 1 \<le> b) s
     @ one_digit (\<lambda>a. 1 \<le> a) s"

definition directive_d :: "string \<Rightarrow> (nat \<times> string) list" where
  "directive_d s =
     two_digits (\<lambda>a b. a = 3 \<and> b \<le> 1) s @ two_digits (\<lambda>a b. 1 \<le> a \<and> a \<le> 2) s
     @ two_digits (\<lambda>a b. a = 0 \<and> 1 \<le> b) s @ one_digit (\<lambda>a. 1 \<le> a) s
     @ concat (map (one_digit (\<lambda>a. 1 \<le> a)) (lit CHR '' '' s))"

definition directive_H :: "string \<Rightarrow> (nat \<times> string) list" where
  "directive_H s =
     two_digits (\<lambda>a b. a = 2 \<and> b \<le> 3) s @ two_digits (\<lambda>a b. a \<le> 1) s
     @ one_digit (\<lambda>a. True) s"

definition directive_M :: "string \<Rightarrow> (nat \<times> string) list" where
  "directive_M s = two_digits (\<lambda>a b. a \<le> 5) s @ one_digit (\<lambda>a. True) s"

definition directive_S :: "string \<Rightarrow> (nat \<times> string) list" where
  "directive_S s =
     two_digits (\<lambda>a b. a = 6 \<and> b \<le> 1) s @ two_digits (\<lambda>a b. a \<le> 5) s
     @ one_digit (\<lambda>a. True) s"

definition strptime_matches :: "string \<Rightarrow> ((nat \<times> nat \<times> nat \<times> nat \<times> nat \<times> nat) \<times> string) list" where
  "strptime_matches s =
     [((y, mo, d, h, mi, sec), r11).
        (y, r1) \<leftarrow> directive_Y s, r2 \<leftarrow> lit CHR '':'' r1,
        (mo, r3) \<leftarrow> directive_m r2, r4 \<leftarrow> lit CHR '':'' r3,
        (d, r5) \<leftarrow> directive_d r4, r6 \<leftarrow> spaces1 r5,
        (h, r7) \<leftarrow> directive_H r6, r8 \<leftarrow> lit CHR '':'' r7,
        (mi, r9) \<leftarrow> directive_M r8, r10 \<leftarrow> lit CHR '':'' r9,
        (sec, r11) \<leftarrow> directive_S r10]"

text \<open>
  \<open>None\<close> is the \<^verbatim>\<open>ValueError\<close> of \<^verbatim>\<open>strptime\<close>: no match, unconverted data after
  the match, or a date or time that does not exist (a second of 60 or 61 matches the
  expression and is then refused by the constructor).
\<close>

definition strptime :: "string \<Rightarrow> datetime option" where
  "strptime date_string =
     (case strptime_matches date_string of
        [] \<Rightarrow> None
      | ((y, mo, d, h, mi, sec), rest) # _ \<Rightarrow>
          if rest = [] then datetime_py y mo d h mi sec else None)"

text \<open>
  \<^verbatim>\<open>datetime.strptime(str(date_str), ...)\<close> on a tag value. The text of a value that is
  not a string (a number, a rational, bytes, a tuple, a mapping) never has the form
  \<^verbatim>\<open>YYYY:MM:DD HH:MM:SS\<close>, so the parse raises on it.
\<close>

definition parse_exif_date :: "exif_value \<Rightarrow> datetime option" where
  "parse_exif_date v = (case v of ExifStr s \<Rightarrow> strptime s | _ \<Rightarrow> None)"

definition date_tags :: "string list" where
  "date_tags = [''DateTimeOriginal'', ''DateTime'', ''DateTimeDigitized'']"

text \<open>The loop of \<^verbatim>\<open>get_date_from_exif\<close> over the tags.\<close>

fun date_from_tags :: "string list \<Rightarrow> exif_data \<Rightarrow> datetime option" where
  "date_from_tags [] exif = None"
| "date_from_tags (tag # tags) exif =
     (case exif tag of
        None \<Rightarrow> date_from_tags tags exif
      | Some date_str \<Rightarrow>
          (case parse_exif_date date_str of
             Some dt \<Rightarrow> Some dt
           | None \<Rightarrow> date_from_tags tags exif))"

definition get_date_from_exif :: "exif_data \<Rightarrow> datetime option" where
  "get_date_from_exif exif = date_from_tags date_tags exif"

section \<open>Files\<close>

text \<open>
  A path is a directory and a name in it (\<^verbatim>\<open>parent / name\<close>). A file of the source
  directory, as the program sees it, is a path with: whether it is a regular file, the
  tag mapping \<^verbatim>\<open>get_exif_data\<close> returns for it (the reading of the image by the
  imaging library is not modelled; the mapping is empty when the image cannot be read or
  carries no metadata), and its modification time as a local date (\<open>None\<close> when
  \<^verbatim>\<open>stat()\<close> or the conversion of the time stamp raises).
\<close>

record path =
  parent :: string
  name :: string

record image_file = path +
  is_file :: bool
  metadata :: exif_data
  mtime :: "datetime option"

definition get_exif_data :: "image_file \<Rightarrow> exif_data" where
  "get_exif_data image_path = metadata image_path"

text \<open>
  \<^verbatim>\<open>get_photo_date\<close>: the metadata, then the file name, then the modification time.
  A \<^verbatim>\<open>datetime\<close> is always true in a condition.
\<close>

definition get_photo_date :: "image_file \<Rightarrow> exif_data \<Rightarrow> exn + datetime" where
  "get_photo_date image_path exif =
     (case get_date_from_exif exif of
        Some dt \<Rightarrow> Inr dt
      | None \<Rightarrow>
          (case get_date_from_filename (name image_path) of
             Some dt \<Rightarrow> Inr dt
           | None \<Rightarrow>
               (case mtime image_path of
                  None \<Rightarrow> Inl OSError
                | Some dt \<Rightarrow> Inr dt)))"

section \<open>The position in the metadata\<close>

text \<open>
  The imaging library's table \<^verbatim>\<open>GPSTAGS\<close>, from the tag ids of the GPS sub-mapping to
  their names.
\<close>

definition GPSTAGS :: "(int \<times> string) list" where
  "GPSTAGS =
     [(0, ''GPSVersionID''), (1, ''GPSLatitudeRef''), (2, ''GPSLatitude''),
      (3, ''GPSLongitudeRef''), (4, ''GPSLongitude''), (5, ''GPSAltitudeRef''),
      (6, ''GPSAltitude''), (7, ''GPSTimeStamp''), (8, ''GPSSatellites''),
      (9, ''GPSStatus''), (10, ''GPSMeasureMode''), (11, ''GPSDOP''),
      (12, ''GPSSpeedRef''), (13, ''GPSSpeed''), (14, ''GPSTrackRef''),
      (15, ''GPSTrack''), (16, ''GPSImgDirectionRef''), (17, ''GPSImgDirection''),
      (18, ''GPSMapDatum''), (19, ''GPSDestLatitudeRef''), (20, ''GPSDestLatitude''),
      (21, ''GPSDestLongitudeRef''), (22, ''GPSDestLongitude''),
      (23, ''GPSDestBearingRef''), (24, ''GPSDestBearing''),
      (25, ''GPSDestDistanceRef''), (26, ''GPSDestDistance''),
      (27, ''GPSProcessingMethod''), (28, ''GPSAreaInformation''),
      (29, ''GPSDateStamp''), (30, ''GPSDifferential''), (31, ''GPSHPositioningError'')]"

text \<open>\<^verbatim>\<open>GPSTAGS.get(key, key)\<close>\<close>

definition gps_decode :: "gps_key \<Rightarrow> gps_key" where
  "gps_decode key =
     (case key of
        TagId i \<Rightarrow> (case map_of GPSTAGS i of Some nm \<Rightarrow> TagName nm | None \<Rightarrow> TagId i)
      | TagName nm \<Rightarrow> TagName nm)"

text \<open>The truth value of a tag value: an empty string and an empty mapping are false.\<close>

definition truthy :: "exif_value \<Rightarrow> bool" where
  "truthy v = (case v of ExifStr s \<Rightarrow> s \<noteq> [] | ExifDict d \<Rightarrow> d \<noteq> [] | ExifOther b \<Rightarrow> b)"

text \<open>
  \<^verbatim>\<open>float(x)\<close>, and the objects that unpacking a value yields. A string yields its
  characters, and \<^verbatim>\<open>float()\<close> accepts a one-character string exactly when it is a
  digit.
\<close>

definition float_py :: "component \<Rightarrow> exn + real" where
  "float_py x = (case x of Numeric r \<Rightarrow> Inr r | NonNumeric \<Rightarrow> Inl TypeError)"

definition char_component :: "char \<Rightarrow> component" where
  "char_component c = (if is_digit c then Numeric (real (digit_val c)) else NonNumeric)"

definition iterate :: "gps_value \<Rightarrow> exn + component list" where
  "iterate v =
     (case v of
        GpsSeq xs \<Rightarrow> Inr xs
      | GpsStr s \<Rightarrow> Inr (map char_component s)
      | GpsOther \<Rightarrow> Inl TypeError)"

text \<open>
  \<^verbatim>\<open>_convert_to_degrees\<close>: \<^verbatim>\<open>d, m, s = value\<close> raises unless the value yields exactly
  three objects; then the three conversions, in this order.
\<close>

definition convert_to_degrees :: "gps_value \<Rightarrow> exn + real" where
  "convert_to_degrees v =
     (case iterate v of
        Inl e \<Rightarrow> Inl e
      | Inr xs \<Rightarrow>
          (case xs of
             [d, m, s] \<Rightarrow>
               (case float_py d of
                  Inl e \<Rightarrow> Inl e
                | Inr fd \<Rightarrow>
                    (case float_py m of
                       Inl e \<Rightarrow> Inl e
                     | Inr fm \<Rightarrow>
                         (case float_py s of
                            Inl e \<Rightarrow> Inl e
                          | Inr fs \<Rightarrow> Inr (fd + fm / 60 + fs / 3600))))
           | _ \<Rightarrow> Inl ValueError))"

text \<open>
  The loop that builds \<^verbatim>\<open>gps_data\<close>: every key of the sub-mapping is decoded, in
  insertion order, and a later entry replaces an earlier one with the same decoded key.
\<close>

definition decode_gps_info :: "(gps_key \<times> gps_value) list \<Rightarrow> (gps_key \<rightharpoonup> gps_value)" where
  "decode_gps_info gps_info = fold (\<lambda>(key, v) gps_data. gps_data(gps_decode key \<mapsto> v)) gps_info Map.empty"

text \<open>
  The body of the \<^verbatim>\<open>try\<close> of \<^verbatim>\<open>get_gps_coordinates\<close>. Calling \<^verbatim>\<open>keys()\<close> on a
  true value that is no mapping raises \<^verbatim>\<open>AttributeError\<close>.
\<close>

definition gps_try :: "exif_data \<Rightarrow> exn + (real \<times> real) option" where
  "gps_try exif =
     (case exif ''GPSInfo'' of
        None \<Rightarrow> Inr None
      | Some gps_info \<Rightarrow>
          if \<not> truthy gps_info then Inr None
          else
            (case gps_info of
               ExifDict entries \<Rightarrow>
                 (let gps_data = decode_gps_info entries in
                  case gps_data (TagName ''GPSLatitude'') of
                    None \<Rightarrow> Inr None
                  | Some lat_value \<Rightarrow>
                      (case gps_data (TagName ''GPSLongitude'') of
                         None \<Rightarrow> Inr None
                       | Some lon_value \<Rightarrow>
                           (case convert_to_degrees lat_value of
                              Inl e \<Rightarrow> Inl e
                            | Inr lat \<Rightarrow>
                                (case convert_to_degrees lon_value of
                                   Inl e \<Rightarrow> Inl e
                                 | Inr lon \<Rightarrow>
                                     Inr (Some
                                       (if gps_data (TagName ''GPSLatitudeRef'') = Some (GpsStr ''S'')
                                        then - lat else lat,
                                        if gps_data (TagName ''GPSLongitudeRef'') = Some (GpsStr ''W'')
                                        then - lon else lon))))))
             | _ \<Rightarrow> Inl AttributeError))"

text \<open>\<^verbatim>\<open>get_gps_coordinates\<close>: any exception of the body gives no coordinate.\<close>

definition get_gps_coordinates :: "exif_data \<Rightarrow> (real \<times> real) option" where
  "get_gps_coordinates exif = (case gps_try exif of Inl e \<Rightarrow> None | Inr r \<Rightarrow> r)"

section \<open>Unique destination names\<close>

text \<open>\<^verbatim>\<open>str(n)\<close> for a natural number: its decimal digits.\<close>

definition digit_char :: "nat \<Rightarrow> char" where
  "digit_char d = ''0123456789'' ! d"

fun str_nat :: "nat \<Rightarrow> string" where
  "str_nat n = (if n < 10 then [digit_char n] else str_nat (n div 10) @ [digit_char (n mod 10)])"

text \<open>\<^verbatim>\<open>int(str(n)) == n\<close>, so that different counters give different names.\<close>

declare str_nat.simps [simp del]

lemma digit_val_digit_char: "d < 10 \<Longrightarrow> digit_val (digit_char d) = d"
proof -
  assume "d < 10"
  then have "d \<in> {0, 1, 2, 3, 4, 5, 6, 7, 8, 9}" by auto
  then show ?thesis by (auto simp add: digit_val_def digit_char_def)
qed

lemma int_py_snoc: "int_py (ds @ [c]) = 10 * int_py ds + digit_val c"
  by (simp add: int_py_def)

lemma int_py_str_nat: "int_py (str_nat n) = n"
proof (induction n rule: str_nat.induct)
  case (1 n)
  show ?case
  proof (cases "n < 10")
    case True
    then show ?thesis
      by (subst str_nat.simps) (simp add: int_py_def digit_val_digit_char)
  next
    case False
    with 1 have "int_py (str_nat (n div 10)) = n div 10" by simp
    with False show ?thesis
      by (subst str_nat.simps) (simp add: int_py_snoc digit_val_digit_char)
  qed
qed

lemma str_nat_inj: "str_nat a = str_nat b \<Longrightarrow> a = b"
  by (metis int_py_str_nat)

lemma finite_candidates:
  "finite {k. c \<le> k \<and> \<lparr>parent = par, name = stm @ ''_'' @ str_nat k @ suf\<rparr> \<in> set files}"
proof -
  let ?f = "\<lambda>k. \<lparr>parent = par, name = stm @ ''_'' @ str_nat k @ suf\<rparr>"
  have "inj ?f" by (rule injI) (simp add: str_nat_inj)
  then have "finite (?f -` set files)" by (simp add: finite_vimageI)
  moreover have "{k. c \<le> k \<and> ?f k \<in> set files} \<subseteq> ?f -` set files" by auto
  ultimately show ?thesis by (rule rev_finite_subset)
qed

text \<open>
  \<^verbatim>\<open>name.rfind('.')\<close>, and the \<^verbatim>\<open>suffix\<close> and \<^verbatim>\<open>stem\<close> of a path as \<^verbatim>\<open>pathlib\<close>
  computes them from it: a leading or a trailing dot starts no suffix.
\<close>

definition rfind_dot :: "string \<Rightarrow> int" where
  "rfind_dot nm =
     (if CHR ''.'' \<in> set nm
      then int (length nm) - 1 - int (length (takeWhile (\<lambda>c. c \<noteq> CHR ''.'') (rev nm)))
      else - 1)"

definition path_suffix :: "string \<Rightarrow> string" where
  "path_suffix nm =
     (let i = rfind_dot nm in if 0 < i \<and> i < int (length nm) - 1 then drop (nat i) nm else [])"

definition path_stem :: "string \<Rightarrow> string" where
  "path_stem nm =
     (let i = rfind_dot nm in if 0 < i \<and> i < int (length nm) - 1 then take (nat i) nm else nm)"

text \<open>
  The loop of \<^verbatim>\<open>get_unique_filename\<close>. \<open>files\<close> holds the paths at which something
  exists; the file system does not change during the call.
\<close>

function unique_loop :: "path list \<Rightarrow> string \<Rightarrow> string \<Rightarrow> string \<Rightarrow> path \<Rightarrow> nat \<Rightarrow> path" where
  "unique_loop files stm suf par destination_path counter =
     (if destination_path \<in> set files
      then unique_loop files stm suf par
             \<lparr>parent = par, name = stm @ ''_'' @ str_nat counter @ suf\<rparr> (counter + 1)
      else destination_path)"
  by pat_completeness auto

text \<open>
  The loop ends: the names tried are pairwise different and only finitely many paths
  exist.
\<close>

termination unique_loop
proof (relation "measure (\<lambda>(files, stm, suf, par, p, c).
          card {k. c \<le> k \<and> \<lparr>parent = par, name = stm @ ''_'' @ str_nat k @ suf\<rparr> \<in> set files}
          + (if p \<in> set files then 1 else 0))", goal_cases)
  case 1
  show ?case by simp
next
  case (2 files stm suf par p c)
  let ?f = "\<lambda>k. \<lparr>parent = par, name = stm @ ''_'' @ str_nat k @ suf\<rparr>"
  let ?A = "{k. c \<le> k \<and> ?f k \<in> set files}"
  let ?B = "{k. c + 1 \<le> k \<and> ?f k \<in> set files}"
  have fin: "finite ?A" by (rule finite_candidates)
  show ?case
  proof (cases "?f c \<in> set files")
    case True
    have "?A = insert c ?B" using True by (auto simp: le_Suc_eq)
    moreover have "c \<notin> ?B" by simp
    moreover have "finite ?B" by (rule finite_candidates)
    ultimately have "card ?A = Suc (card ?B)" by simp
    with 2 True show ?thesis by simp
  next
    case False
    have "?A = ?B"
    proof -
      have "\<And>k. c \<le> k \<and> ?f k \<in> set files \<longleftrightarrow> c + 1 \<le> k \<and> ?f k \<in> set files"
        using False by (metis Suc_eq_plus1 Suc_leI le_neq_implies_less Suc_leD)
      then show ?thesis by simp
    qed
    with 2 False show ?thesis by simp
  qed
qed

declare unique_loop.simps [simp del]

definition get_unique_filename :: "path list \<Rightarrow> path \<Rightarrow> path" where
  "get_unique_filename files destination_path =
     (if destination_path \<notin> set files then destination_path
      else unique_loop files (path_stem (name destination_path))
             (path_suffix (name destination_path)) (parent destination_path)
             destination_path 1)"

section \<open>The place name\<close>

text \<open>
  What a call of the reverse-geocoding client gives: it raises (a timeout, a service
  error, or any other exception), it returns no location, or it returns a location, of
  which the program reads \<^verbatim>\<open>raw.get('address')\<close>: nothing, or a mapping from field
  names to strings.
\<close>

datatype geo_error = GeocoderTimedOut | GeocoderServiceError | OtherException

datatype geo_outcome = Raised geo_error | NoLocation | Location "(string \<times> string) list option"

text \<open>
  \<^verbatim>\<open>a or b or ...\<close> over the looked-up fields: the first one that is present and not
  empty.
\<close>

fun first_true :: "string option list \<Rightarrow> string option" where
  "first_true [] = None"
| "first_true (None # xs) = first_true xs"
| "first_true (Some v # xs) = (if v \<noteq> [] then Some v else first_true xs)"

definition city_of_address :: "(string \<times> string) list \<Rightarrow> string" where
  "city_of_address address =
     (case first_true (map (map_of address) [''village'', ''town'', ''city'', ''municipality'']) of
        Some city \<Rightarrow> city
      | None \<Rightarrow> (case map_of address ''county'' of Some county \<Rightarrow> county | None \<Rightarrow> ''Inconnu''))"

definition city_of_outcome :: "geo_outcome \<Rightarrow> string" where
  "city_of_outcome r =
     (case r of
        Raised e \<Rightarrow> ''Inconnu''
      | NoLocation \<Rightarrow> ''Inconnu''
      | Location None \<Rightarrow> ''Inconnu''
      | Location (Some address) \<Rightarrow> if address = [] then ''Inconnu'' else city_of_address address)"

section \<open>The run\<close>

text \<open>
  The calls the program makes to the outside, in order: \<^verbatim>\<open>time.sleep\<close>, the reverse
  geocoding request, the creation of a destination folder, the move of a file; and the
  reports of a failure it prints. Progress messages are not modelled.
\<close>

datatype event =
    Sleep nat
  | Reverse real real
  | Mkdir string
  | Move string path
  | Report_error string
  | Report_source_missing
  | Report_no_photos

text \<open>
  The state of a \<^verbatim>\<open>PhotoOrganizer\<close> and of the destination directory: the two
  counters, the paths below the destination directory at which something exists, and the
  calls made so far.
\<close>

record state =
  processed_count :: nat
  error_count :: nat
  files :: "path list"
  trace :: "event list"

text \<open>
  The answers of the outside world: whether the source directory exists, whether
  creating the destination directory fails, what listing the source directory gives
  (\<open>None\<close> when it raises), what the geocoding service answers to a request (the
  number is the count of calls made before it, so the answer may change with time),
  and whether creating a folder or moving a file fails.
\<close>

record env =
  source_exists :: bool
  root_mkdir_fails :: bool
  listing :: "image_file list option"
  reverse :: "nat \<Rightarrow> real \<Rightarrow> real \<Rightarrow> geo_outcome"
  mkdir_fails :: "string \<Rightarrow> bool"
  move_fails :: "string \<Rightarrow> path \<Rightarrow> bool"

definition emit :: "event \<Rightarrow> state \<Rightarrow> state" where
  "emit e s = s\<lparr>trace := trace s @ [e]\<rparr>"

text \<open>\<^verbatim>\<open>get_city_from_coordinates\<close>: the pause, then the request.\<close>

definition get_city_from_coordinates :: "env \<Rightarrow> state \<Rightarrow> real \<Rightarrow> real \<Rightarrow> string \<times> state" where
  "get_city_from_coordinates e s lat lon =
     (let s1 = emit (Sleep 1) s;
          location = reverse e (length (trace s1)) lat lon;
          s2 = emit (Reverse lat lon) s1
      in (city_of_outcome location, s2))"

text \<open>
  \<^verbatim>\<open>strftime('%Y-%m-%d')\<close>. (For a year below 1000 the C library decides whether the
  year is padded; here it is.)
\<close>

definition zfill :: "nat \<Rightarrow> string \<Rightarrow> string" where
  "zfill n ds = replicate (n - length ds) CHR ''0'' @ ds"

definition strftime_ymd :: "datetime \<Rightarrow> string" where
  "strftime_ymd dt =
     zfill 4 (str_nat (year dt)) @ ''-'' @ zfill 2 (str_nat (month dt)) @ ''-''
     @ zfill 2 (str_nat (day dt))"

text \<open>The \<^verbatim>\<open>except\<close> branch of \<^verbatim>\<open>process_photo\<close>.\<close>

definition record_error :: "image_file \<Rightarrow> state \<Rightarrow> state" where
  "record_error image_path s = (emit (Report_error (name image_path)) s)\<lparr>error_count := error_count s + 1\<rparr>"

text \<open>
  The place of a photo (the branch on \<^verbatim>\<open>coordinates\<close> in \<^verbatim>\<open>process_photo\<close>; a pair of
  coordinates is always true) and the name of its folder.
\<close>

definition resolve_city :: "env \<Rightarrow> state \<Rightarrow> (real \<times> real) option \<Rightarrow> string \<times> state" where
  "resolve_city e s coordinates =
     (case coordinates of
        Some (lat, lon) \<Rightarrow> get_city_from_coordinates e s lat lon
      | None \<Rightarrow> (''Inconnu'', s))"

definition folder_name :: "string \<Rightarrow> string \<Rightarrow> string" where
  "folder_name date_str city = date_str @ '' - '' @ city"

definition process_photo :: "env \<Rightarrow> state \<Rightarrow> image_file \<Rightarrow> state" where
  "process_photo e s image_path =
     (let exif = get_exif_data image_path in
      case get_photo_date image_path exif of
        Inl err \<Rightarrow> record_error image_path s
      | Inr photo_date \<Rightarrow>
          (let date_str = strftime_ymd photo_date;
               coordinates = get_gps_coordinates exif;
               (city, s1) = resolve_city e s coordinates;
               folder = folder_name date_str city;
               s2 = emit (Mkdir folder) s1
           in if mkdir_fails e folder then record_error image_path s2
              else
                (let destination_path =
                       get_unique_filename (files s2) \<lparr>parent = folder, name = name image_path\<rparr>;
                     s3 = emit (Move (name image_path) destination_path) s2
                 in if move_fails e (name image_path) destination_path
                    then record_error image_path s3
                    else s3\<lparr>files := destination_path # files s3,
                            processed_count := processed_count s3 + 1\<rparr>)))"

text \<open>
  The extensions of a photo, and \<^verbatim>\<open>str.lower()\<close> on characters below 256: the letters
  A to Z become a to z. The other characters are left as they are, which does not change
  the membership test below: \<^verbatim>\<open>lower()\<close> keeps them or turns them into a character
  outside ASCII, and no extension holds one.
\<close>

definition photo_extensions :: "string list" where
  "photo_extensions =
     [''.jpg'', ''.jpeg'', ''.png'', ''.heic'', ''.heif'', ''.raw'', ''.cr2'', ''.nef'', ''.arw'']"

definition lower_char :: "char \<Rightarrow> char" where
  "lower_char c =
     (case map_of (zip ''ABCDEFGHIJKLMNOPQRSTUVWXYZ'' ''abcdefghijklmnopqrstuvwxyz'') c of
        Some l \<Rightarrow> l
      | None \<Rightarrow> c)"

definition is_photo :: "image_file \<Rightarrow> bool" where
  "is_photo f = (is_file f \<and> map lower_char (path_suffix (name f)) \<in> set photo_extensions)"

text \<open>
  \<^verbatim>\<open>organize_photos\<close>. The creation of the destination directory and the listing of
  the source directory are outside any \<^verbatim>\<open>try\<close>: when one of them raises, so does the
  run.
\<close>

definition organize_photos :: "env \<Rightarrow> state \<Rightarrow> exn + state" where
  "organize_photos e s =
     (if \<not> source_exists e then Inr (emit Report_source_missing s)
      else if root_mkdir_fails e then Inl OSError
      else
        (case listing e of
           None \<Rightarrow> Inl OSError
         | Some entries \<Rightarrow>
             (let photo_files = filter is_photo entries
              in if photo_files = [] then Inr (emit Report_no_photos s)
                 else Inr (foldl (process_photo e) s photo_files))))"

text \<open>A new \<^verbatim>\<open>PhotoOrganizer\<close>, over a destination directory that holds \<open>fs\<close>.\<close>

definition init :: "path list \<Rightarrow> state" where
  "init fs = \<lparr>processed_count = 0, error_count = 0, files = fs, trace = []\<rparr>"

section \<open>Notions used in the statements\<close>

text \<open>
  The date one tag gives: none when the tag is absent or its value does not parse.
\<close>

definition tag_date :: "exif_data \<Rightarrow> string \<Rightarrow> datetime option" where
  "tag_date exif tag = (case exif tag of None \<Rightarrow> None | Some v \<Rightarrow> parse_exif_date v)"

text \<open>
  The \<open>k\<close>-th alternative name of a path: the counter goes after the stem, before the
  extension.
\<close>

definition numbered :: "path \<Rightarrow> nat \<Rightarrow> path" where
  "numbered p k =
     \<lparr>parent = parent p, name = path_stem (name p) @ ''_'' @ str_nat k @ path_suffix (name p)\<rparr>"

text \<open>The number of files a run attempts: the photos of the listing, when there is one.\<close>

definition attempted :: "env \<Rightarrow> nat" where
  "attempted e =
     (if source_exists e \<and> \<not> root_mkdir_fails e
      then (case listing e of None \<Rightarrow> 0 | Some entries \<Rightarrow> length (filter is_photo entries))
      else 0)"

text \<open>
  A resolution outcome without a place: the call raises, returns nothing, or returns
  an address (if any) with none of the five fields.
\<close>

definition place_unresolved :: "geo_outcome \<Rightarrow> bool" where
  "place_unresolved r =
     (case r of
        Raised err \<Rightarrow> True
      | NoLocation \<Rightarrow> True
      | Location None \<Rightarrow> True
      | Location (Some address) \<Rightarrow>
          list_all (\<lambda>k. map_of address k = None)
            [''village'', ''town'', ''city'', ''municipality'', ''county''])"

text \<open>
  A sequence of calls in which every geocoding request comes right after a pause of at
  least one second.
\<close>

fun paused :: "event list \<Rightarrow> bool" where
  "paused [] = True"
| "paused (Reverse lat lon # es) = False"
| "paused (Sleep n # Reverse lat lon # es) = (1 \<le> n \<and> paused es)"
| "paused (ev # es) = paused es"

text \<open>Whether a call is a geocoding request.\<close>

definition is_request :: "event \<Rightarrow> bool" where
  "is_request ev = (case ev of Reverse lat lon \<Rightarrow> True | _ \<Rightarrow> False)"

section \<open>Properties\<close>

subsection \<open>Evaluation rules and shared lemmas\<close>

lemmas filename_eval =
  get_date_from_filename_def patterns_def match_ymd_def match_8_def take_digits_def
  is_digit_def opt_sep_def date_of_groups_def datetime_py_def int_py_def digit_val_def
  days_in_month_def is_leap_def

lemma get_date_from_filename_unfold:
  "get_date_from_filename fn =
     (case Option.bind (re_search match_ymd fn) date_of_groups of
        Some dt \<Rightarrow> Some dt
      | None \<Rightarrow> Option.bind (re_search match_8 fn) date_of_groups)"
  by (simp add: get_date_from_filename_def patterns_def split: option.splits)

lemmas gps_eval =
  get_gps_coordinates_def gps_try_def truthy_def decode_gps_info_def gps_decode_def
  GPSTAGS_def convert_to_degrees_def iterate_def float_py_def char_component_def

lemma unique_loop_first_free:
  "p \<in> set fs \<Longrightarrow>
   \<exists>k\<ge>c. unique_loop fs stm suf par p c = \<lparr>parent = par, name = stm @ ''_'' @ str_nat k @ suf\<rparr>
     \<and> \<lparr>parent = par, name = stm @ ''_'' @ str_nat k @ suf\<rparr> \<notin> set fs
     \<and> (\<forall>j. c \<le> j \<and> j < k \<longrightarrow> \<lparr>parent = par, name = stm @ ''_'' @ str_nat j @ suf\<rparr> \<in> set fs)"
proof (induction fs stm suf par p c rule: unique_loop.induct)
  case (1 fs stm suf par p c)
  let ?cand = "\<lambda>k. \<lparr>parent = par, name = stm @ ''_'' @ str_nat k @ suf\<rparr>"
  have step: "unique_loop fs stm suf par p c = unique_loop fs stm suf par (?cand c) (c + 1)"
    using "1.prems" by (subst unique_loop.simps) simp
  show ?case
  proof (cases "?cand c \<in> set fs")
    case False
    then have "unique_loop fs stm suf par (?cand c) (c + 1) = ?cand c"
      by (subst unique_loop.simps) simp
    with step False show ?thesis by (intro exI [of _ c]) auto
  next
    case True
    from "1.IH" [OF "1.prems" True] obtain k where k: "c + 1 \<le> k"
      "unique_loop fs stm suf par (?cand c) (c + 1) = ?cand k" "?cand k \<notin> set fs"
      "\<forall>j. c + 1 \<le> j \<and> j < k \<longrightarrow> ?cand j \<in> set fs"
      by blast
    have "\<forall>j. c \<le> j \<and> j < k \<longrightarrow> ?cand j \<in> set fs"
    proof (intro allI impI)
      fix j assume j: "c \<le> j \<and> j < k"
      show "?cand j \<in> set fs"
      proof (cases "j = c")
        case True
        with \<open>?cand c \<in> set fs\<close> show ?thesis by simp
      next
        case False
        with j have "c + 1 \<le> j \<and> j < k" by simp
        with k(4) show ?thesis by blast
      qed
    qed
    with k step show ?thesis by (intro exI [of _ k]) auto
  qed
qed

lemma emit_simps [simp]:
  "trace (emit ev s) = trace s @ [ev]"
  "files (emit ev s) = files s"
  "processed_count (emit ev s) = processed_count s"
  "error_count (emit ev s) = error_count s"
  by (simp_all add: emit_def)

lemma record_error_simps [simp]:
  "trace (record_error f s) = trace s @ [Report_error (name f)]"
  "files (record_error f s) = files s"
  "processed_count (record_error f s) = processed_count s"
  "error_count (record_error f s) = error_count s + 1"
  by (simp_all add: record_error_def)

lemma resolve_city_simps [simp]:
  "files (snd (resolve_city e s c)) = files s"
  "processed_count (snd (resolve_city e s c)) = processed_count s"
  "error_count (snd (resolve_city e s c)) = error_count s"
  "trace (snd (resolve_city e s c)) =
     trace s @ (case c of None \<Rightarrow> [] | Some (lat, lon) \<Rightarrow> [Sleep 1, Reverse lat lon])"
  by (simp_all add: resolve_city_def get_city_from_coordinates_def Let_def split: option.splits)

lemma get_unique_filename_numbered:
  assumes "p \<in> set fs"
  shows "\<exists>k\<ge>1. get_unique_filename fs p = numbered p k
           \<and> (\<forall>j. 1 \<le> j \<and> j < k \<longrightarrow> numbered p j \<in> set fs)"
  using unique_loop_first_free [OF assms, of 1 "path_stem (name p)" "path_suffix (name p)" "parent p"]
    assms
  by (simp add: get_unique_filename_def numbered_def) blast

lemmas path_eval =
  get_unique_filename_def numbered_def path_stem_def path_suffix_def rfind_dot_def
  str_nat.simps digit_char_def unique_loop.simps

lemmas run_eval =
  process_photo_def get_exif_data_def get_photo_date_def get_date_from_exif_def date_tags_def
  filename_eval strftime_ymd_def zfill_def resolve_city_def get_city_from_coordinates_def
  city_of_outcome_def city_of_address_def folder_name_def emit_def record_error_def
  init_def Let_def

subsection \<open>The fallback place name\<close>

lemma unresolved_city: "place_unresolved r \<Longrightarrow> city_of_outcome r = ''Inconnu''"
  by (auto simp add: place_unresolved_def city_of_outcome_def city_of_address_def
      split: geo_outcome.splits option.splits)

lemma resolve_city_fallback:
  assumes "case c of None \<Rightarrow> True
           | Some (lat, lon) \<Rightarrow> place_unresolved (reverse e (Suc (length (trace s))) lat lon)"
  shows "fst (resolve_city e s c) = ''Inconnu''"
  using assms
  by (auto simp add: resolve_city_def get_city_from_coordinates_def Let_def unresolved_city
      split: option.splits)

lemma get_unique_filename_parent: "parent (get_unique_filename fs p) = parent p"
proof (cases "p \<in> set fs")
  case False
  then show ?thesis by (simp add: get_unique_filename_def)
next
  case True
  from get_unique_filename_numbered [OF this] show ?thesis
    by (auto simp add: numbered_def)
qed

lemma process_photo_folder:
  assumes d: "get_photo_date f (get_exif_data f) = Inr dt"
    and c: "fst (resolve_city e s (get_gps_coordinates (get_exif_data f))) = city"
  shows "Mkdir (strftime_ymd dt @ '' - '' @ city) \<in> set (trace (process_photo e s f))"
    and "processed_count (process_photo e s f) = processed_count s + 1 \<longrightarrow>
           (\<exists>dest. files (process_photo e s f) = dest # files s
              \<and> parent dest = strftime_ymd dt @ '' - '' @ city
              \<and> Move (name f) dest \<in> set (trace (process_photo e s f)))"
proof -
  obtain s1 where r: "resolve_city e s (get_gps_coordinates (get_exif_data f)) = (city, s1)"
    using c by (cases "resolve_city e s (get_gps_coordinates (get_exif_data f))") simp
  have s1: "files s1 = files s" "processed_count s1 = processed_count s"
    using resolve_city_simps(1,2) [of e s "get_gps_coordinates (get_exif_data f)"] r by simp_all
  show "Mkdir (strftime_ymd dt @ '' - '' @ city) \<in> set (trace (process_photo e s f))"
    using d r by (simp add: process_photo_def Let_def folder_name_def)
  show "processed_count (process_photo e s f) = processed_count s + 1 \<longrightarrow>
           (\<exists>dest. files (process_photo e s f) = dest # files s
              \<and> parent dest = strftime_ymd dt @ '' - '' @ city
              \<and> Move (name f) dest \<in> set (trace (process_photo e s f)))"
    using d r s1
    by (simp add: process_photo_def Let_def folder_name_def get_unique_filename_parent)
qed

text \<open>
  Claim C1, as amended: the fallback label of the program is \<^verbatim>\<open>Inconnu\<close>. When the
  date of a file resolves to \<open>dt\<close>, and the file has no coordinate, or the geocoding call
  for its coordinate raises (a timeout, a service error or anything else), returns no
  location, or returns a location with no address or with an address that has none of
  the fields village, town, city, municipality, county: the place name is \<^verbatim>\<open>Inconnu\<close>,
  the folder asked for is \<^verbatim>\<open>{date} - Inconnu\<close> with the date as \<^verbatim>\<open>YYYY-MM-DD\<close>, and when
  the file is moved it is moved into that folder.
\<close>

theorem fallback_place_name:
  assumes "get_photo_date f (get_exif_data f) = Inr dt"
    and "case get_gps_coordinates (get_exif_data f) of
           None \<Rightarrow> True
         | Some (lat, lon) \<Rightarrow> place_unresolved (reverse e (Suc (length (trace s))) lat lon)"
  shows "fst (resolve_city e s (get_gps_coordinates (get_exif_data f))) = ''Inconnu''
         \<and> folder_name (strftime_ymd dt) ''Inconnu'' = strftime_ymd dt @ '' - Inconnu''
         \<and> Mkdir (strftime_ymd dt @ '' - Inconnu'') \<in> set (trace (process_photo e s f))
         \<and> (processed_count (process_photo e s f) = processed_count s + 1 \<longrightarrow>
              (\<exists>dest. files (process_photo e s f) = dest # files s
                 \<and> parent dest = strftime_ymd dt @ '' - Inconnu''
                 \<and> Move (name f) dest \<in> set (trace (process_photo e s f))))"
proof -
  have c: "fst (resolve_city e s (get_gps_coordinates (get_exif_data f))) = ''Inconnu''"
    using assms(2) by (rule resolve_city_fallback)
  from process_photo_folder [OF assms(1) c] c show ?thesis
    by (simp add: folder_name_def)
qed

text \<open>
  The theorem at a photo of June 15, 2023 with a coordinate, when the geocoding call
  times out.
\<close>

theorem fallback_place_name_witness:
  "trace (process_photo
       \<lparr>source_exists = True, root_mkdir_fails = False, listing = None,
        reverse = (\<lambda>n lat lon. Raised GeocoderTimedOut),
        mkdir_fails = (\<lambda>d. False), move_fails = (\<lambda>src dst. False)\<rparr> (init [])
       \<lparr>parent = ''photos'', name = ''IMG_20230615.jpg'', is_file = True,
        metadata = [''GPSInfo'' \<mapsto> ExifDict
           [(TagId 1, GpsStr ''N''), (TagId 2, GpsSeq [Numeric 48, Numeric 30, Numeric 0]),
            (TagId 3, GpsStr ''E''), (TagId 4, GpsSeq [Numeric 2, Numeric 15, Numeric 0])]],
        mtime = None\<rparr>) =
     [Sleep 1, Reverse 48.5 2.25, Mkdir ''2023-06-15 - Inconnu'',
      Move ''IMG_20230615.jpg'' \<lparr>parent = ''2023-06-15 - Inconnu'', name = ''IMG_20230615.jpg''\<rparr>]
   \<and> Mkdir ''2023-06-15 - Inconnu'' \<in> set (trace (process_photo
       \<lparr>source_exists = True, root_mkdir_fails = False, listing = None,
        reverse = (\<lambda>n lat lon. Raised GeocoderTimedOut),
        mkdir_fails = (\<lambda>d. False), move_fails = (\<lambda>src dst. False)\<rparr> (init [])
       \<lparr>parent = ''photos'', name = ''IMG_20230615.jpg'', is_file = True,
        metadata = [''GPSInfo'' \<mapsto> ExifDict
           [(TagId 1, GpsStr ''N''), (TagId 2, GpsSeq [Numeric 48, Numeric 30, Numeric 0]),
            (TagId 3, GpsStr ''E''), (TagId 4, GpsSeq [Numeric 2, Numeric 15, Numeric 0])]],
        mtime = None\<rparr>))"
proof -
  let ?e = "\<lparr>source_exists = True, root_mkdir_fails = False, listing = None,
        reverse = (\<lambda>n lat lon. Raised GeocoderTimedOut),
        mkdir_fails = (\<lambda>d. False), move_fails = (\<lambda>src dst. False)\<rparr>"
  let ?f = "\<lparr>parent = ''photos'', name = ''IMG_20230615.jpg'', is_file = True,
        metadata = [''GPSInfo'' \<mapsto> ExifDict
           [(TagId 1, GpsStr ''N''), (TagId 2, GpsSeq [Numeric 48, Numeric 30, Numeric 0]),
            (TagId 3, GpsStr ''E''), (TagId 4, GpsSeq [Numeric 2, Numeric 15, Numeric 0])]],
        mtime = None\<rparr>"
  let ?dt = "\<lparr>year = 2023, month = 6, day = 15, hour = 0, minute = 0, second = 0\<rparr>"
  have d: "get_photo_date ?f (get_exif_data ?f) = Inr ?dt"
    by (simp add: get_exif_data_def get_photo_date_def get_date_from_exif_def date_tags_def
        filename_eval)
  have g: "get_gps_coordinates (get_exif_data ?f) = Some (48.5, 2.25)"
    by (simp add: get_exif_data_def gps_eval)
  have u: "case get_gps_coordinates (get_exif_data ?f) of None \<Rightarrow> True
      | Some (lat, lon) \<Rightarrow> place_unresolved (reverse ?e (Suc (length (trace (init [])))) lat lon)"
    unfolding g by (simp add: place_unresolved_def)
  have s: "strftime_ymd ?dt = ''2023-06-15''"
    by (simp add: strftime_ymd_def zfill_def str_nat.simps digit_char_def)
  have 2: "Mkdir ''2023-06-15 - Inconnu'' \<in> set (trace (process_photo ?e (init []) ?f))"
    using fallback_place_name [OF d u] unfolding s by simp
  have 1: "trace (process_photo ?e (init []) ?f) =
     [Sleep 1, Reverse 48.5 2.25, Mkdir ''2023-06-15 - Inconnu'',
      Move ''IMG_20230615.jpg'' \<lparr>parent = ''2023-06-15 - Inconnu'', name = ''IMG_20230615.jpg''\<rparr>]"
    by (simp add: run_eval gps_eval path_eval)
  from 1 2 show ?thesis by (intro conjI)
qed

text \<open>
  Claim C1 as stated fails: for a photo of June 15, 2023 without a coordinate the folder
  is \<^verbatim>\<open>2023-06-15 - Inconnu\<close>, not \<^verbatim>\<open>2023-06-15 - Unknown\<close>, and the place name after
  a timeout is \<^verbatim>\<open>Inconnu\<close>, not \<^verbatim>\<open>Unknown\<close>.
\<close>

theorem fallback_place_name_counterexample:
  "trace (process_photo
       \<lparr>source_exists = True, root_mkdir_fails = False, listing = None,
        reverse = (\<lambda>n lat lon. Raised GeocoderTimedOut),
        mkdir_fails = (\<lambda>d. False), move_fails = (\<lambda>src dst. False)\<rparr> (init [])
       \<lparr>parent = ''photos'', name = ''IMG_20230615.jpg'', is_file = True,
        metadata = Map.empty, mtime = None\<rparr>) =
     [Mkdir ''2023-06-15 - Inconnu'',
      Move ''IMG_20230615.jpg'' \<lparr>parent = ''2023-06-15 - Inconnu'', name = ''IMG_20230615.jpg''\<rparr>]
   \<and> city_of_outcome (Raised GeocoderTimedOut) = ''Inconnu''
   \<and> ''Inconnu'' \<noteq> ''Unknown''"
  by (simp add: run_eval gps_eval path_eval)

subsection \<open>A date in the file name\<close>

lemma re_search_skip:
  "(\<forall>i<length pre. m (drop i (pre @ s)) = None) \<Longrightarrow> re_search m (pre @ s) = re_search m s"
proof (induction pre)
  case Nil
  then show ?case by simp
next
  case (Cons c pre)
  from Cons.prems have h0: "m ((c # pre) @ s) = None" by (metis drop0 length_greater_0_conv list.distinct(1))
  have "\<forall>i<length pre. m (drop i (pre @ s)) = None"
  proof (intro allI impI)
    fix i assume "i < length pre"
    then have "Suc i < length (c # pre)" by simp
    with Cons.prems have "m (drop (Suc i) ((c # pre) @ s)) = None" by blast
    then show "m (drop i (pre @ s)) = None" by simp
  qed
  from Cons.IH[OF this] h0 show ?case by simp
qed

lemma match_ymd_no_digit: "\<not> is_digit c \<Longrightarrow> match_ymd (c # s) = None"
  by (simp add: match_ymd_def take_digits_def)

lemma no_digit_prefix_no_match:
  "list_all (\<lambda>c. \<not> is_digit c) pre \<Longrightarrow> \<forall>i<length pre. match_ymd (drop i (pre @ s)) = None"
proof (intro allI impI)
  fix i assume a: "list_all (\<lambda>c. \<not> is_digit c) pre" "i < length pre"
  then have "drop i (pre @ s) = pre ! i # drop (Suc i) (pre @ s)"
    by (simp add: Cons_nth_drop_Suc nth_append)
  moreover from a have "\<not> is_digit (pre ! i)" by (simp add: list_all_length)
  ultimately show "match_ymd (drop i (pre @ s)) = None" by (simp add: match_ymd_no_digit)
qed

lemma match_ymd_20230615:
  "sub = ''20230615'' \<or> sub = ''2023-06-15'' \<or> sub = ''2023_06_15'' \<Longrightarrow>
   match_ymd (sub @ rest) = Some [''2023'', ''06'', ''15'']"
  by (auto simp add: match_ymd_def take_digits_def is_digit_def opt_sep_def)

lemma date_of_groups_20230615:
  "date_of_groups [''2023'', ''06'', ''15''] =
     Some \<lparr>year = 2023, month = 6, day = 15, hour = 0, minute = 0, second = 0\<rparr>"
  by (simp add: filename_eval)

lemma re_search_hit: "m s = Some g \<Longrightarrow> re_search m s = Some g"
  by (cases s) simp_all

text \<open>
  Claim C2, as amended. When the file name is \<open>pre @ sub @ rest\<close> with \<open>sub\<close> one of
  \<^verbatim>\<open>20230615\<close>, \<^verbatim>\<open>2023-06-15\<close>, \<^verbatim>\<open>2023_06_15\<close>, the 4/2/2 pattern matches at no
  position of \<open>pre\<close> (in particular when \<open>pre\<close> holds no digit), and none of the three
  date tags is in the metadata, the resolved date is June 15, 2023 (at midnight),
  whatever the modification time is.
\<close>

theorem filename_date_20230615:
  assumes nm: "name image_path = pre @ sub @ rest"
    and sub: "sub = ''20230615'' \<or> sub = ''2023-06-15'' \<or> sub = ''2023_06_15''"
    and first: "list_all (\<lambda>c. \<not> is_digit c) pre
                \<or> (\<forall>i<length pre. match_ymd (drop i (pre @ sub @ rest)) = None)"
    and notag: "exif ''DateTimeOriginal'' = None" "exif ''DateTime'' = None"
      "exif ''DateTimeDigitized'' = None"
  shows "get_photo_date image_path exif =
           Inr \<lparr>year = 2023, month = 6, day = 15, hour = 0, minute = 0, second = 0\<rparr>"
proof -
  have ex: "get_date_from_exif exif = None"
    using notag by (simp add: get_date_from_exif_def date_tags_def)
  from first have "\<forall>i<length pre. match_ymd (drop i (pre @ sub @ rest)) = None"
    using no_digit_prefix_no_match by blast
  then have "re_search match_ymd (pre @ sub @ rest) = re_search match_ymd (sub @ rest)"
    by (rule re_search_skip)
  also have "\<dots> = Some [''2023'', ''06'', ''15'']"
    using match_ymd_20230615[OF sub] by (rule re_search_hit)
  finally have "get_date_from_filename (name image_path) =
      Some \<lparr>year = 2023, month = 6, day = 15, hour = 0, minute = 0, second = 0\<rparr>"
    by (simp add: get_date_from_filename_unfold nm date_of_groups_20230615)
  with ex show ?thesis by (simp add: get_photo_date_def)
qed

text \<open>The theorem at the name \<^verbatim>\<open>IMG_2023-06-15_001.jpg\<close>.\<close>

theorem filename_date_20230615_witness:
  "get_photo_date \<lparr>parent = ''photos'', name = ''IMG_2023-06-15_001.jpg'', is_file = True, metadata = Map.empty,
       mtime = None\<rparr> Map.empty =
     Inr \<lparr>year = 2023, month = 6, day = 15, hour = 0, minute = 0, second = 0\<rparr>"
  using filename_date_20230615 [of "\<lparr>parent = ''photos'', name = ''IMG_2023-06-15_001.jpg'', is_file = True,
      metadata = Map.empty, mtime = None\<rparr>" "''IMG_''" "''2023-06-15''" "''_001.jpg''" Map.empty]
  by (simp add: is_digit_def)

text \<open>
  Claim C2 as stated fails: \<^verbatim>\<open>19990101_20230615.jpg\<close> contains \<^verbatim>\<open>20230615\<close>, and
  the first match of the pattern, \<^verbatim>\<open>19990101\<close>, decides: the date is January 1, 1999.
\<close>

theorem filename_date_20230615_counterexample:
  "get_photo_date \<lparr>parent = ''photos'', name = ''19990101_20230615.jpg'', is_file = True, metadata = Map.empty,
       mtime = None\<rparr> Map.empty =
     Inr \<lparr>year = 1999, month = 1, day = 1, hour = 0, minute = 0, second = 0\<rparr>"
  by (simp add: get_photo_date_def get_date_from_exif_def date_tags_def filename_eval)

subsection \<open>Unique destination names\<close>

lemma stem_suffix: "path_stem nm @ path_suffix nm = nm"
  by (simp add: path_stem_def path_suffix_def Let_def)

lemma get_unique_filename_free: "get_unique_filename fs p \<notin> set fs"
proof (cases "p \<in> set fs")
  case False
  then show ?thesis by (simp add: get_unique_filename_def)
next
  case True
  from unique_loop_first_free [OF True, of 1 "path_stem (name p)" "path_suffix (name p)" "parent p"]
  show ?thesis using True by (auto simp add: get_unique_filename_def)
qed

lemma process_photo_files:
  "files (process_photo e s f) = files s
   \<or> (\<exists>d. files (process_photo e s f) = d # files s \<and> d \<notin> set (files s))"
proof (cases "get_photo_date f (get_exif_data f)")
  case (Inl err)
  then show ?thesis by (simp add: process_photo_def)
next
  case (Inr dt)
  obtain city s1 where r: "resolve_city e s (get_gps_coordinates (get_exif_data f)) = (city, s1)"
    by (cases "resolve_city e s (get_gps_coordinates (get_exif_data f))")
  have f1: "files s1 = files s"
    using resolve_city_simps(1) [of e s "get_gps_coordinates (get_exif_data f)"] r by simp
  show ?thesis
    using Inr r f1 get_unique_filename_free [of "files s"]
    by (simp add: process_photo_def Let_def)
qed

text \<open>
  Claim C3. The unique-name generator returns the path itself when nothing exists there.
  Otherwise it returns the first of the paths stem_1, stem_2, ... (the counter after the
  stem, before the extension, in the same folder) at which nothing exists: every
  alternative with a smaller counter exists. When only the path itself exists the result
  carries \<^verbatim>\<open>_1\<close>; when the path and its first alternative exist, \<^verbatim>\<open>_2\<close>. The result
  never exists, and a processing step leaves the existing paths as they are or adds one
  path at which nothing existed: no existing file is overwritten.
\<close>

theorem unique_filename_free:
  "(p \<notin> set fs \<longrightarrow> get_unique_filename fs p = p)
   \<and> (p \<in> set fs \<longrightarrow>
        (\<exists>k\<ge>1. get_unique_filename fs p = numbered p k
           \<and> (\<forall>j. 1 \<le> j \<and> j < k \<longrightarrow> numbered p j \<in> set fs)))
   \<and> get_unique_filename fs p \<notin> set fs
   \<and> path_stem (name p) @ path_suffix (name p) = name p
   \<and> name (numbered p 1) = path_stem (name p) @ ''_1'' @ path_suffix (name p)
   \<and> name (numbered p 2) = path_stem (name p) @ ''_2'' @ path_suffix (name p)
   \<and> parent (numbered p k) = parent p
   \<and> (p \<in> set fs \<and> numbered p 1 \<notin> set fs \<longrightarrow> get_unique_filename fs p = numbered p 1)
   \<and> (p \<in> set fs \<and> numbered p 1 \<in> set fs \<and> numbered p 2 \<notin> set fs \<longrightarrow>
        get_unique_filename fs p = numbered p 2)
   \<and> (files (process_photo e s f) = files s
       \<or> (\<exists>d. files (process_photo e s f) = d # files s \<and> d \<notin> set (files s)))"
proof (intro conjI impI)
  assume "p \<notin> set fs"
  then show "get_unique_filename fs p = p" by (simp add: get_unique_filename_def)
next
  assume "p \<in> set fs"
  then show "\<exists>k\<ge>1. get_unique_filename fs p = numbered p k
           \<and> (\<forall>j. 1 \<le> j \<and> j < k \<longrightarrow> numbered p j \<in> set fs)"
    by (rule get_unique_filename_numbered)
next
  show "get_unique_filename fs p \<notin> set fs" by (rule get_unique_filename_free)
next
  show "path_stem (name p) @ path_suffix (name p) = name p" by (rule stem_suffix)
next
  show "name (numbered p 1) = path_stem (name p) @ ''_1'' @ path_suffix (name p)"
    by (simp add: numbered_def str_nat.simps digit_char_def)
next
  show "name (numbered p 2) = path_stem (name p) @ ''_2'' @ path_suffix (name p)"
    by (simp add: numbered_def str_nat.simps digit_char_def)
next
  show "parent (numbered p k) = parent p" by (simp add: numbered_def)
next
  assume a: "p \<in> set fs \<and> numbered p 1 \<notin> set fs"
  then obtain k where k: "1 \<le> k" "get_unique_filename fs p = numbered p k"
    "\<forall>j. 1 \<le> j \<and> j < k \<longrightarrow> numbered p j \<in> set fs"
    using get_unique_filename_numbered [of p fs] by blast
  have "k = 1"
  proof (rule ccontr)
    assume "k \<noteq> 1"
    with k(1) have "1 \<le> (1::nat) \<and> 1 < k" by simp
    with k(3) have "numbered p 1 \<in> set fs" by blast
    with a show False by simp
  qed
  with k(2) show "get_unique_filename fs p = numbered p 1" by simp
next
  assume a: "p \<in> set fs \<and> numbered p 1 \<in> set fs \<and> numbered p 2 \<notin> set fs"
  then obtain k where k: "1 \<le> k" "get_unique_filename fs p = numbered p k"
    "\<forall>j. 1 \<le> j \<and> j < k \<longrightarrow> numbered p j \<in> set fs"
    using get_unique_filename_numbered [of p fs] by blast
  have free: "numbered p k \<notin> set fs"
    using get_unique_filename_free [of fs p] k(2) by simp
  have "k = 2"
  proof (rule ccontr)
    assume n: "k \<noteq> 2"
    from free a have "k \<noteq> 1" by auto
    with n k(1) have "1 \<le> (2::nat) \<and> 2 < k" by simp
    with k(3) have "numbered p 2 \<in> set fs" by blast
    with a show False by simp
  qed
  with k(2) show "get_unique_filename fs p = numbered p 2" by simp
next
  show "files (process_photo e s f) = files s
       \<or> (\<exists>d. files (process_photo e s f) = d # files s \<and> d \<notin> set (files s))"
    by (rule process_photo_files)
qed

text \<open>
  The theorem at a free name, at a name taken once and at a name taken twice; and three
  files of the same name and date, processed one after the other into an empty
  destination: the second gets \<^verbatim>\<open>_1\<close>, the third \<^verbatim>\<open>_2\<close>.
\<close>

theorem unique_filename_free_witness:
  "get_unique_filename [] \<lparr>parent = ''d'', name = ''a.jpg''\<rparr> = \<lparr>parent = ''d'', name = ''a.jpg''\<rparr>
   \<and> get_unique_filename [\<lparr>parent = ''d'', name = ''a.jpg''\<rparr>] \<lparr>parent = ''d'', name = ''a.jpg''\<rparr> =
       \<lparr>parent = ''d'', name = ''a_1.jpg''\<rparr>
   \<and> get_unique_filename [\<lparr>parent = ''d'', name = ''a_1.jpg''\<rparr>, \<lparr>parent = ''d'', name = ''a.jpg''\<rparr>]
         \<lparr>parent = ''d'', name = ''a.jpg''\<rparr> =
       \<lparr>parent = ''d'', name = ''a_2.jpg''\<rparr>
   \<and> files (foldl (process_photo
          \<lparr>source_exists = True, root_mkdir_fails = False, listing = None,
           reverse = (\<lambda>n lat lon. NoLocation), mkdir_fails = (\<lambda>d. False),
           move_fails = (\<lambda>src dst. False)\<rparr>) (init [])
         [\<lparr>parent = ''photos'', name = ''IMG_20230615.jpg'', is_file = True,
            metadata = Map.empty, mtime = None\<rparr>,
          \<lparr>parent = ''more'', name = ''IMG_20230615.jpg'', is_file = True,
            metadata = Map.empty, mtime = None\<rparr>,
          \<lparr>parent = ''other'', name = ''IMG_20230615.jpg'', is_file = True,
            metadata = Map.empty, mtime = None\<rparr>]) =
       [\<lparr>parent = ''2023-06-15 - Inconnu'', name = ''IMG_20230615_2.jpg''\<rparr>,
        \<lparr>parent = ''2023-06-15 - Inconnu'', name = ''IMG_20230615_1.jpg''\<rparr>,
        \<lparr>parent = ''2023-06-15 - Inconnu'', name = ''IMG_20230615.jpg''\<rparr>]"
proof -
  let ?p = "\<lparr>parent = ''d'', name = ''a.jpg''\<rparr>"
  let ?q = "\<lparr>parent = ''d'', name = ''a_1.jpg''\<rparr>"
  have n1: "numbered ?p (Suc 0) = ?q"
    and n2: "numbered ?p 2 = \<lparr>parent = ''d'', name = ''a_2.jpg''\<rparr>"
    by (simp_all add: numbered_def path_stem_def path_suffix_def rfind_dot_def
        str_nat.simps digit_char_def)
  have "?p \<notin> set [] \<longrightarrow> get_unique_filename [] ?p = ?p"
    by (rule unique_filename_free [of ?p "[]", THEN conjunct1])
  then have 1: "get_unique_filename [] ?p = ?p" by simp
  have "?p \<in> set [?p] \<and> numbered ?p 1 \<notin> set [?p] \<longrightarrow>
      get_unique_filename [?p] ?p = numbered ?p 1"
    by (rule unique_filename_free [of ?p "[?p]", THEN conjunct2, THEN conjunct2, THEN conjunct2, THEN conjunct2, THEN conjunct2, THEN conjunct2, THEN conjunct2, THEN conjunct1])
  then have 2: "get_unique_filename [?p] ?p = ?q" by (simp add: n1)
  have "?p \<in> set [?q, ?p] \<and> numbered ?p 1 \<in> set [?q, ?p] \<and> numbered ?p 2 \<notin> set [?q, ?p] \<longrightarrow>
      get_unique_filename [?q, ?p] ?p = numbered ?p 2"
    by (rule unique_filename_free [of ?p "[?q, ?p]", THEN conjunct2, THEN conjunct2, THEN conjunct2, THEN conjunct2, THEN conjunct2, THEN conjunct2, THEN conjunct2, THEN conjunct2, THEN conjunct1])
  then have 3: "get_unique_filename [?q, ?p] ?p = \<lparr>parent = ''d'', name = ''a_2.jpg''\<rparr>"
    by (simp add: n1 n2)
  have 4: "files (foldl (process_photo
          \<lparr>source_exists = True, root_mkdir_fails = False, listing = None,
           reverse = (\<lambda>n lat lon. NoLocation), mkdir_fails = (\<lambda>d. False),
           move_fails = (\<lambda>src dst. False)\<rparr>) (init [])
         [\<lparr>parent = ''photos'', name = ''IMG_20230615.jpg'', is_file = True,
            metadata = Map.empty, mtime = None\<rparr>,
          \<lparr>parent = ''more'', name = ''IMG_20230615.jpg'', is_file = True,
            metadata = Map.empty, mtime = None\<rparr>,
          \<lparr>parent = ''other'', name = ''IMG_20230615.jpg'', is_file = True,
            metadata = Map.empty, mtime = None\<rparr>]) =
       [\<lparr>parent = ''2023-06-15 - Inconnu'', name = ''IMG_20230615_2.jpg''\<rparr>,
        \<lparr>parent = ''2023-06-15 - Inconnu'', name = ''IMG_20230615_1.jpg''\<rparr>,
        \<lparr>parent = ''2023-06-15 - Inconnu'', name = ''IMG_20230615.jpg''\<rparr>]"
    by (simp add: run_eval gps_eval path_eval)
  from 1 2 3 4 show ?thesis by (intro conjI)
qed

subsection \<open>The two outcomes of a file\<close>







subsection \<open>The order of the date tags\<close>

lemmas strptime_eval =
  strptime_def strptime_matches_def directive_Y_def directive_m_def directive_d_def
  directive_H_def directive_M_def directive_S_def two_digits_def one_digit_def lit_def
  is_space_def take_digits_def is_digit_def datetime_py_def int_py_def digit_val_def
  days_in_month_def is_leap_def

lemma date_from_tags_unfold:
  "get_date_from_exif exif =
     (case tag_date exif ''DateTimeOriginal'' of
        Some dt \<Rightarrow> Some dt
      | None \<Rightarrow>
          (case tag_date exif ''DateTime'' of
             Some dt \<Rightarrow> Some dt
           | None \<Rightarrow> tag_date exif ''DateTimeDigitized''))"
  by (simp add: get_date_from_exif_def date_tags_def tag_date_def split: option.splits)

lemma strptime_example:
  "strptime ''2022:01:05 10:20:30'' =
     Some \<lparr>year = 2022, month = 1, day = 5, hour = 10, minute = 20, second = 30\<rparr>"
  by (simp add: strptime_eval)

text \<open>
  Claim C5. The date of the metadata is the date of the first of the tags
  \<^verbatim>\<open>DateTimeOriginal\<close>, \<^verbatim>\<open>DateTime\<close>, \<^verbatim>\<open>DateTimeDigitized\<close>, in this order, that is
  present and whose value parses with \<^verbatim>\<open>%Y:%m:%d %H:%M:%S\<close>; an absent tag and a value
  that does not parse are passed over. With \<^verbatim>\<open>DateTimeOriginal\<close> equal to
  \<^verbatim>\<open>2022:01:05 10:20:30\<close> the resolved date is January 5, 2022, for every file, whatever
  its name and its modification time are.
\<close>

theorem exif_date_tag_order:
  "get_date_from_exif exif =
     (case tag_date exif ''DateTimeOriginal'' of
        Some dt \<Rightarrow> Some dt
      | None \<Rightarrow>
          (case tag_date exif ''DateTime'' of
             Some dt \<Rightarrow> Some dt
           | None \<Rightarrow> tag_date exif ''DateTimeDigitized''))
   \<and> (\<forall>tag. exif tag = None \<longrightarrow> tag_date exif tag = None)
   \<and> (\<forall>tag s. exif tag = Some (ExifStr s) \<longrightarrow> tag_date exif tag = strptime s)
   \<and> (exif ''DateTimeOriginal'' = Some (ExifStr ''2022:01:05 10:20:30'') \<longrightarrow>
        (\<forall>image_path. get_photo_date image_path exif =
           Inr \<lparr>year = 2022, month = 1, day = 5, hour = 10, minute = 20, second = 30\<rparr>))"
proof (intro conjI allI impI)
  show "get_date_from_exif exif =
     (case tag_date exif ''DateTimeOriginal'' of
        Some dt \<Rightarrow> Some dt
      | None \<Rightarrow>
          (case tag_date exif ''DateTime'' of
             Some dt \<Rightarrow> Some dt
           | None \<Rightarrow> tag_date exif ''DateTimeDigitized''))"
    by (rule date_from_tags_unfold)
next
  fix tag assume "exif tag = None"
  then show "tag_date exif tag = None" by (simp add: tag_date_def)
next
  fix tag s assume "exif tag = Some (ExifStr s)"
  then show "tag_date exif tag = strptime s" by (simp add: tag_date_def parse_exif_date_def)
next
  fix image_path :: image_file
  assume a: "exif ''DateTimeOriginal'' = Some (ExifStr ''2022:01:05 10:20:30'')"
  then have "tag_date exif ''DateTimeOriginal'' =
      Some \<lparr>year = 2022, month = 1, day = 5, hour = 10, minute = 20, second = 30\<rparr>"
    by (simp add: tag_date_def parse_exif_date_def strptime_example)
  then have "get_date_from_exif exif =
      Some \<lparr>year = 2022, month = 1, day = 5, hour = 10, minute = 20, second = 30\<rparr>"
    by (simp add: date_from_tags_unfold)
  then show "get_photo_date image_path exif =
      Inr \<lparr>year = 2022, month = 1, day = 5, hour = 10, minute = 20, second = 30\<rparr>"
    by (simp add: get_photo_date_def)
qed

text \<open>
  The theorem at two mappings: one whose first tag does not parse and whose third does,
  and the one of the claim, on a file whose name and modification time hold other dates.
\<close>

theorem exif_date_tag_order_witness:
  "get_date_from_exif
     [''DateTimeOriginal'' \<mapsto> ExifStr ''2022-01-05'',
      ''DateTimeDigitized'' \<mapsto> ExifStr ''2021:12:31 23:59:59''] =
     Some \<lparr>year = 2021, month = 12, day = 31, hour = 23, minute = 59, second = 59\<rparr>
   \<and> get_photo_date
       \<lparr>parent = ''photos'', name = ''IMG_20230615.jpg'', is_file = True, metadata = Map.empty,
        mtime = Some \<lparr>year = 2024, month = 2, day = 29, hour = 12, minute = 0, second = 0\<rparr>\<rparr>
       [''DateTimeOriginal'' \<mapsto> ExifStr ''2022:01:05 10:20:30''] =
     Inr \<lparr>year = 2022, month = 1, day = 5, hour = 10, minute = 20, second = 30\<rparr>"
proof -
  let ?e1 = "[''DateTimeOriginal'' \<mapsto> ExifStr ''2022-01-05'',
      ''DateTimeDigitized'' \<mapsto> ExifStr ''2021:12:31 23:59:59'']"
  let ?e2 = "[''DateTimeOriginal'' \<mapsto> ExifStr ''2022:01:05 10:20:30'']"
  have p1: "strptime ''2022-01-05'' = None" by (simp add: strptime_eval)
  have p2: "strptime ''2021:12:31 23:59:59'' =
      Some \<lparr>year = 2021, month = 12, day = 31, hour = 23, minute = 59, second = 59\<rparr>"
    by (simp add: strptime_eval)
  have t1: "tag_date ?e1 ''DateTimeOriginal'' = None"
    using exif_date_tag_order [of ?e1] by (simp add: p1)
  have t2: "tag_date ?e1 ''DateTime'' = None"
    using exif_date_tag_order [of ?e1] by simp
  have t3: "tag_date ?e1 ''DateTimeDigitized'' =
      Some \<lparr>year = 2021, month = 12, day = 31, hour = 23, minute = 59, second = 59\<rparr>"
    using exif_date_tag_order [of ?e1] by (simp add: p2)
  have "get_date_from_exif ?e1 =
      Some \<lparr>year = 2021, month = 12, day = 31, hour = 23, minute = 59, second = 59\<rparr>"
    using conjunct1 [OF exif_date_tag_order [of ?e1]] by (simp only: t1 t2 t3 option.case)
  moreover have "get_photo_date
       \<lparr>parent = ''photos'', name = ''IMG_20230615.jpg'', is_file = True, metadata = Map.empty,
        mtime = Some \<lparr>year = 2024, month = 2, day = 29, hour = 12, minute = 0, second = 0\<rparr>\<rparr> ?e2 =
     Inr \<lparr>year = 2022, month = 1, day = 5, hour = 10, minute = 20, second = 30\<rparr>"
    using exif_date_tag_order [of ?e2] by simp
  ultimately show ?thesis by (intro conjI)
qed

subsection \<open>Hemisphere references\<close>






subsection \<open>No request without a pause\<close>

lemma paused_Sleep: "paused ys \<Longrightarrow> paused (Sleep v # ys)"
proof (cases ys)
  case Nil
  then show ?thesis by simp
next
  case (Cons ev es)
  assume "paused ys"
  with Cons show ?thesis by (cases ev) simp_all
qed

lemma paused_append: "paused xs \<Longrightarrow> paused ys \<Longrightarrow> paused (xs @ ys)"
  by (induction xs rule: paused.induct) (auto simp add: paused_Sleep)

lemma process_photo_trace:
  "\<exists>new. trace (process_photo e s f) = trace s @ new \<and> paused new
     \<and> (get_gps_coordinates (get_exif_data f) = None \<longrightarrow> \<not> list_ex is_request new)"
proof (cases "get_photo_date f (get_exif_data f)")
  case (Inl err)
  then show ?thesis by (simp add: process_photo_def is_request_def)
next
  case (Inr dt)
  obtain city s1 where r: "resolve_city e s (get_gps_coordinates (get_exif_data f)) = (city, s1)"
    by (cases "resolve_city e s (get_gps_coordinates (get_exif_data f))")
  have t1: "trace s1 = trace s @ (case get_gps_coordinates (get_exif_data f) of None \<Rightarrow> []
      | Some (lat, lon) \<Rightarrow> [Sleep 1, Reverse lat lon])"
    using resolve_city_simps(4) [of e s "get_gps_coordinates (get_exif_data f)"] r by simp
  show ?thesis
    using Inr r t1
    by (auto simp add: process_photo_def Let_def is_request_def split: option.splits)
qed

lemma process_photo_paused: "paused (trace s) \<Longrightarrow> paused (trace (process_photo e s f))"
proof -
  assume p: "paused (trace s)"
  from process_photo_trace [of e s f] obtain new where
    "trace (process_photo e s f) = trace s @ new" "paused new" by blast
  with p show ?thesis by (simp add: paused_append)
qed

lemma foldl_process_photo_paused:
  "paused (trace s) \<Longrightarrow> paused (trace (foldl (process_photo e) s fs))"
  by (induction fs arbitrary: s) (simp_all add: process_photo_paused)

lemma organize_photos_paused:
  assumes "paused (trace s)" "organize_photos e s = Inr s'"
  shows "paused (trace s')"
proof -
  have a: "paused (trace (emit Report_source_missing s))" "paused (trace (emit Report_no_photos s))"
    using assms(1) by (simp_all add: paused_append)
  from assms(2) have "s' = emit Report_source_missing s \<or> s' = emit Report_no_photos s
      \<or> (\<exists>fs. s' = foldl (process_photo e) s fs)"
    by (auto simp add: organize_photos_def Let_def split: if_splits option.splits)
  with a assms(1) show ?thesis
    using foldl_process_photo_paused by blast
qed

lemma paused_Cons_cases:
  assumes "paused (ev # es)"
  shows "\<not> is_request ev
         \<and> (paused es
            \<or> (\<exists>n lat lon es'. ev = Sleep n \<and> 1 \<le> n \<and> es = Reverse lat lon # es' \<and> paused es'))"
proof (cases es)
  case Nil
  with assms show ?thesis by (cases ev) (simp_all add: is_request_def)
next
  case (Cons x xs)
  with assms show ?thesis by (cases ev; cases x) (simp_all add: is_request_def)
qed

lemma paused_nth:
  "paused tr \<Longrightarrow> i < length tr \<Longrightarrow> tr ! i = Reverse lat lon \<Longrightarrow>
   0 < i \<and> (\<exists>n\<ge>1. tr ! (i - 1) = Sleep n)"
proof (induction "length tr" arbitrary: tr i rule: less_induct)
  case less
  from less.prems(2) obtain ev es where tr: "tr = ev # es" by (cases tr) auto
  from less.prems(1) tr have c: "\<not> is_request ev"
    "paused es \<or> (\<exists>n lat lon es'. ev = Sleep n \<and> 1 \<le> n \<and> es = Reverse lat lon # es' \<and> paused es')"
    using paused_Cons_cases by blast+
  have "i \<noteq> 0"
  proof
    assume "i = 0"
    with less.prems(3) tr have "ev = Reverse lat lon" by simp
    with c(1) show False by (simp add: is_request_def)
  qed
  then obtain j where i: "i = Suc j" by (cases i) auto
  with less.prems tr have j: "j < length es" "es ! j = Reverse lat lon" by simp_all
  from c(2) show ?case
  proof
    assume "paused es"
    from less.hyps [of es j, OF _ this j] tr
    have "0 < j" "\<exists>n\<ge>1. es ! (j - 1) = Sleep n" by simp_all
    then show ?thesis using tr i by (cases j) auto
  next
    assume "\<exists>n lat lon es'. ev = Sleep n \<and> 1 \<le> n \<and> es = Reverse lat lon # es' \<and> paused es'"
    then obtain n la lo es' where e: "ev = Sleep n" "1 \<le> n" "es = Reverse la lo # es'" "paused es'"
      by blast
    show ?thesis
    proof (cases j)
      case 0
      with tr i e show ?thesis by auto
    next
      case (Suc k)
      with j e have k: "k < length es'" "es' ! k = Reverse lat lon" by simp_all
      from less.hyps [of es' k, OF _ e(4) k] tr e
      have "0 < k" "\<exists>n\<ge>1. es' ! (k - 1) = Sleep n" by simp_all
      then show ?thesis using tr i e Suc by (cases k) auto
    qed
  qed
qed

lemma paused_gap:
  assumes "paused tr" "i < j" "j < length tr" "is_request (tr ! i)" "is_request (tr ! j)"
  shows "i < j - 1 \<and> (\<exists>n\<ge>1. tr ! (j - 1) = Sleep n)"
proof -
  from assms(5) obtain lat lon where "tr ! j = Reverse lat lon"
    by (cases "tr ! j") (simp_all add: is_request_def)
  from paused_nth [OF assms(1,3) this] obtain n where n: "0 < j" "1 \<le> n" "tr ! (j - 1) = Sleep n"
    by blast
  have "i \<noteq> j - 1"
  proof
    assume "i = j - 1"
    with n(3) assms(4) show False by (simp add: is_request_def)
  qed
  with assms(2) have "i < j - 1" by simp
  with n show ?thesis by blast
qed

text \<open>
  Claim C7. For a file without a coordinate the place is the fallback label, the state is
  unchanged by the resolution, and the processing step makes no geocoding request. A call
  of \<^verbatim>\<open>get_city_from_coordinates\<close> makes exactly a pause of one second and then the
  request. So a processing step keeps the sequence of calls one in which every request
  comes right after a pause of at least one second, and so is the sequence of calls of a
  whole run; in such a sequence a request is never the first call, the call right
  before it is a pause of at least one second, and so between any two requests there is
  a pause of at least one second.
\<close>

theorem geocoding_only_after_pause:
  "(get_gps_coordinates (get_exif_data f) = None \<longrightarrow>
      resolve_city e s (get_gps_coordinates (get_exif_data f)) = (''Inconnu'', s)
      \<and> (\<exists>new. trace (process_photo e s f) = trace s @ new \<and> \<not> list_ex is_request new))
   \<and> trace (snd (get_city_from_coordinates e s lat lon)) = trace s @ [Sleep 1, Reverse lat lon]
   \<and> (paused (trace s) \<longrightarrow> paused (trace (process_photo e s f)))
   \<and> (\<forall>s'. organize_photos e (init fs) = Inr s' \<longrightarrow> paused (trace s'))
   \<and> (\<forall>i la lo. paused tr \<and> i < length tr \<and> tr ! i = Reverse la lo \<longrightarrow>
         0 < i \<and> (\<exists>n\<ge>1. tr ! (i - 1) = Sleep n))
   \<and> (\<forall>i j. paused tr \<and> i < j \<and> j < length tr \<and> is_request (tr ! i) \<and> is_request (tr ! j) \<longrightarrow>
         i < j - 1 \<and> (\<exists>n\<ge>1. tr ! (j - 1) = Sleep n))"
proof (intro conjI allI impI)
  assume n: "get_gps_coordinates (get_exif_data f) = None"
  then show "resolve_city e s (get_gps_coordinates (get_exif_data f)) = (''Inconnu'', s)"
    by (simp add: resolve_city_def)
  from process_photo_trace [of e s f] n
  show "\<exists>new. trace (process_photo e s f) = trace s @ new \<and> \<not> list_ex is_request new"
    by blast
next
  show "trace (snd (get_city_from_coordinates e s lat lon)) = trace s @ [Sleep 1, Reverse lat lon]"
    by (simp add: get_city_from_coordinates_def Let_def)
next
  assume "paused (trace s)"
  then show "paused (trace (process_photo e s f))" by (rule process_photo_paused)
next
  fix s' assume "organize_photos e (init fs) = Inr s'"
  moreover have "paused (trace (init fs))" by (simp add: init_def)
  ultimately show "paused (trace s')" using organize_photos_paused by blast
next
  fix i la lo assume a: "paused tr \<and> i < length tr \<and> tr ! i = Reverse la lo"
  then show "0 < i" using paused_nth by blast
  from a show "\<exists>n\<ge>1. tr ! (i - 1) = Sleep n" using paused_nth by blast
next
  fix i j
  assume a: "paused tr \<and> i < j \<and> j < length tr \<and> is_request (tr ! i) \<and> is_request (tr ! j)"
  then have g: "i < j - 1 \<and> (\<exists>n\<ge>1. tr ! (j - 1) = Sleep n)"
    using paused_gap [of tr i j] by blast
  from g show "i < j - 1" ..
  from g show "\<exists>n\<ge>1. tr ! (j - 1) = Sleep n" ..
qed

text \<open>
  The theorem at a run over two photos, the first with a coordinate and the second
  without: one pause, one request right after it, and no request for the second.
\<close>

theorem geocoding_only_after_pause_witness:
  "\<exists>s'. organize_photos
          \<lparr>source_exists = True, root_mkdir_fails = False,
           listing = Some
             [\<lparr>parent = ''photos'', name = ''IMG_20230615.jpg'', is_file = True,
               metadata = [''GPSInfo'' \<mapsto> ExifDict
                  [(TagId 1, GpsStr ''N''), (TagId 2, GpsSeq [Numeric 48, Numeric 30, Numeric 0]),
                   (TagId 3, GpsStr ''E''), (TagId 4, GpsSeq [Numeric 2, Numeric 15, Numeric 0])]],
               mtime = None\<rparr>,
              \<lparr>parent = ''photos'', name = ''IMG_20230616.jpg'', is_file = True,
               metadata = Map.empty, mtime = None\<rparr>],
           reverse = (\<lambda>n lat lon. Location (Some [(''city'', ''Paris'')])),
           mkdir_fails = (\<lambda>d. False), move_fails = (\<lambda>src dst. False)\<rparr> (init []) = Inr s'
        \<and> trace s' =
            [Sleep 1, Reverse 48.5 2.25, Mkdir ''2023-06-15 - Paris'',
             Move ''IMG_20230615.jpg'' \<lparr>parent = ''2023-06-15 - Paris'', name = ''IMG_20230615.jpg''\<rparr>,
             Mkdir ''2023-06-16 - Inconnu'',
             Move ''IMG_20230616.jpg'' \<lparr>parent = ''2023-06-16 - Inconnu'', name = ''IMG_20230616.jpg''\<rparr>]
        \<and> paused (trace s')"
proof -
  let ?e = "\<lparr>source_exists = True, root_mkdir_fails = False,
           listing = Some
             [\<lparr>parent = ''photos'', name = ''IMG_20230615.jpg'', is_file = True,
               metadata = [''GPSInfo'' \<mapsto> ExifDict
                  [(TagId 1, GpsStr ''N''), (TagId 2, GpsSeq [Numeric 48, Numeric 30, Numeric 0]),
                   (TagId 3, GpsStr ''E''), (TagId 4, GpsSeq [Numeric 2, Numeric 15, Numeric 0])]],
               mtime = None\<rparr>,
              \<lparr>parent = ''photos'', name = ''IMG_20230616.jpg'', is_file = True,
               metadata = Map.empty, mtime = None\<rparr>],
           reverse = (\<lambda>n lat lon. Location (Some [(''city'', ''Paris'')])),
           mkdir_fails = (\<lambda>d. False), move_fails = (\<lambda>src dst. False)\<rparr>"
  let ?tr = "[Sleep 1, Reverse 48.5 2.25, Mkdir ''2023-06-15 - Paris'',
             Move ''IMG_20230615.jpg'' \<lparr>parent = ''2023-06-15 - Paris'', name = ''IMG_20230615.jpg''\<rparr>,
             Mkdir ''2023-06-16 - Inconnu'',
             Move ''IMG_20230616.jpg'' \<lparr>parent = ''2023-06-16 - Inconnu'', name = ''IMG_20230616.jpg''\<rparr>]"
  let ?r = "\<lparr>processed_count = 2, error_count = 0,
            files = [\<lparr>parent = ''2023-06-16 - Inconnu'', name = ''IMG_20230616.jpg''\<rparr>,
                     \<lparr>parent = ''2023-06-15 - Paris'', name = ''IMG_20230615.jpg''\<rparr>],
            trace = ?tr\<rparr>"
  have ph: "filter is_photo (the (listing ?e)) = the (listing ?e)"
    by (simp add: is_photo_def path_suffix_def rfind_dot_def lower_char_def photo_extensions_def)
  have run: "organize_photos ?e (init []) = Inr ?r"
    using ph by (simp add: organize_photos_def run_eval gps_eval path_eval)
  have "paused (trace ?r)"
    using geocoding_only_after_pause [of _ _ _ _ _ "[]" _] run by blast
  with run show ?thesis by simp
qed

subsection \<open>A missing source directory\<close>

text \<open>
  Claim C8. When the source directory does not exist, the run returns at once: it
  reports the missing directory and does nothing else. No file is attempted, the counters
  and the existing paths are unchanged, and no file is moved.
\<close>

theorem missing_source_stops:
  assumes "\<not> source_exists e"
  shows "\<exists>s'. organize_photos e s = Inr s'
           \<and> processed_count s' = processed_count s \<and> error_count s' = error_count s
           \<and> files s' = files s
           \<and> trace s' = trace s @ [Report_source_missing]
           \<and> attempted e = 0"
  using assms by (simp add: organize_photos_def attempted_def)

text \<open>The theorem at a new organizer whose source directory is missing.\<close>

theorem missing_source_stops_witness:
  "\<exists>s'. organize_photos
          \<lparr>source_exists = False, root_mkdir_fails = False,
           listing = Some [\<lparr>parent = ''photos'', name = ''IMG_20230615.jpg'', is_file = True,
                            metadata = Map.empty, mtime = None\<rparr>],
           reverse = (\<lambda>n lat lon. NoLocation), mkdir_fails = (\<lambda>d. False),
           move_fails = (\<lambda>src dst. False)\<rparr> (init []) = Inr s'
        \<and> processed_count s' = 0 \<and> error_count s' = 0 \<and> files s' = []
        \<and> trace s' = [Report_source_missing]"
  using missing_source_stops [of
      "\<lparr>source_exists = False, root_mkdir_fails = False,
           listing = Some [\<lparr>parent = ''photos'', name = ''IMG_20230615.jpg'', is_file = True,
                            metadata = Map.empty, mtime = None\<rparr>],
           reverse = (\<lambda>n lat lon. NoLocation), mkdir_fails = (\<lambda>d. False),
           move_fails = (\<lambda>src dst. False)\<rparr>" "init []"]
  by (simp add: init_def) blast

subsection \<open>Malformed position data\<close>

lemma convert_nonnumeric:
  "NonNumeric \<in> set xs \<Longrightarrow> \<exists>err. convert_to_degrees (GpsSeq xs) = Inl err"
  by (auto simp add: convert_to_degrees_def iterate_def float_py_def
      split: list.splits sum.splits component.splits)

lemma gps_some_cases:
  assumes "get_gps_coordinates exif = Some c"
  shows "\<exists>entries lat_value lon_value lat lon.
           exif ''GPSInfo'' = Some (ExifDict entries) \<and> entries \<noteq> []
           \<and> decode_gps_info entries (TagName ''GPSLatitude'') = Some lat_value
           \<and> decode_gps_info entries (TagName ''GPSLongitude'') = Some lon_value
           \<and> convert_to_degrees lat_value = Inr lat
           \<and> convert_to_degrees lon_value = Inr lon"
  using assms
  by (auto simp add: get_gps_coordinates_def gps_try_def truthy_def Let_def
      split: option.splits sum.splits exif_value.splits if_splits)

text \<open>
  Claim C9. The position decoder returns no coordinate, and never raises: when the
  metadata has no GPS sub-mapping or its value is no mapping, when the latitude or the
  longitude is missing from the decoded sub-mapping, and when the conversion of either
  raises, as it does for a triple with a component that is no number. Every exception
  of the body is turned into no coordinate. A coordinate is returned only when the
  sub-mapping holds both components and both conversions succeed.
\<close>

theorem gps_structural_errors:
  "(exif ''GPSInfo'' = None \<longrightarrow> get_gps_coordinates exif = None)
   \<and> (\<forall>v. exif ''GPSInfo'' = Some v \<and> (\<forall>entries. v \<noteq> ExifDict entries) \<longrightarrow>
         get_gps_coordinates exif = None)
   \<and> (\<forall>entries. exif ''GPSInfo'' = Some (ExifDict entries)
         \<and> (decode_gps_info entries (TagName ''GPSLatitude'') = None
            \<or> decode_gps_info entries (TagName ''GPSLongitude'') = None) \<longrightarrow>
         get_gps_coordinates exif = None)
   \<and> (\<forall>entries lat_value lon_value err.
         exif ''GPSInfo'' = Some (ExifDict entries)
         \<and> decode_gps_info entries (TagName ''GPSLatitude'') = Some lat_value
         \<and> decode_gps_info entries (TagName ''GPSLongitude'') = Some lon_value
         \<and> (convert_to_degrees lat_value = Inl err \<or> convert_to_degrees lon_value = Inl err) \<longrightarrow>
         get_gps_coordinates exif = None)
   \<and> (\<forall>xs. NonNumeric \<in> set xs \<longrightarrow> (\<exists>err. convert_to_degrees (GpsSeq xs) = Inl err))
   \<and> (\<forall>err. gps_try exif = Inl err \<longrightarrow> get_gps_coordinates exif = None)
   \<and> (\<forall>c. get_gps_coordinates exif = Some c \<longrightarrow>
         (\<exists>entries lat_value lon_value lat lon.
            exif ''GPSInfo'' = Some (ExifDict entries) \<and> entries \<noteq> []
            \<and> decode_gps_info entries (TagName ''GPSLatitude'') = Some lat_value
            \<and> decode_gps_info entries (TagName ''GPSLongitude'') = Some lon_value
            \<and> convert_to_degrees lat_value = Inr lat
            \<and> convert_to_degrees lon_value = Inr lon))"
proof (intro conjI allI impI)
  assume "exif ''GPSInfo'' = None"
  then show "get_gps_coordinates exif = None"
    by (simp add: get_gps_coordinates_def gps_try_def)
next
  fix v assume "exif ''GPSInfo'' = Some v \<and> (\<forall>entries. v \<noteq> ExifDict entries)"
  then show "get_gps_coordinates exif = None"
    by (cases v) (simp_all add: get_gps_coordinates_def gps_try_def)
next
  fix entries
  assume "exif ''GPSInfo'' = Some (ExifDict entries)
         \<and> (decode_gps_info entries (TagName ''GPSLatitude'') = None
            \<or> decode_gps_info entries (TagName ''GPSLongitude'') = None)"
  then show "get_gps_coordinates exif = None"
    by (auto simp add: get_gps_coordinates_def gps_try_def Let_def split: option.splits)
next
  fix entries lat_value lon_value err
  assume "exif ''GPSInfo'' = Some (ExifDict entries)
         \<and> decode_gps_info entries (TagName ''GPSLatitude'') = Some lat_value
         \<and> decode_gps_info entries (TagName ''GPSLongitude'') = Some lon_value
         \<and> (convert_to_degrees lat_value = Inl err \<or> convert_to_degrees lon_value = Inl err)"
  then show "get_gps_coordinates exif = None"
    by (auto simp add: get_gps_coordinates_def gps_try_def Let_def split: sum.splits)
next
  fix xs assume "NonNumeric \<in> set xs"
  then show "\<exists>err. convert_to_degrees (GpsSeq xs) = Inl err" by (rule convert_nonnumeric)
next
  fix err assume "gps_try exif = Inl err"
  then show "get_gps_coordinates exif = None" by (simp add: get_gps_coordinates_def)
next
  fix c assume "get_gps_coordinates exif = Some c"
  then show "\<exists>entries lat_value lon_value lat lon.
            exif ''GPSInfo'' = Some (ExifDict entries) \<and> entries \<noteq> []
            \<and> decode_gps_info entries (TagName ''GPSLatitude'') = Some lat_value
            \<and> decode_gps_info entries (TagName ''GPSLongitude'') = Some lon_value
            \<and> convert_to_degrees lat_value = Inr lat
            \<and> convert_to_degrees lon_value = Inr lon"
    by (rule gps_some_cases)
qed

text \<open>
  The theorem at five mappings: an empty one, one without a longitude, one with a
  component that is no number, one whose GPS value is no mapping, and a well-formed one.
\<close>

theorem gps_structural_errors_witness:
  "get_gps_coordinates Map.empty = None
   \<and> get_gps_coordinates
       [''GPSInfo'' \<mapsto> ExifDict [(TagId 1, GpsStr ''N''), (TagId 2, GpsSeq [Numeric 48, Numeric 51, Numeric 30])]] = None
   \<and> get_gps_coordinates
       [''GPSInfo'' \<mapsto> ExifDict [(TagId 2, GpsSeq [Numeric 48, NonNumeric, Numeric 30]),
          (TagId 4, GpsSeq [Numeric 2, Numeric 17, Numeric 40])]] = None
   \<and> get_gps_coordinates [''GPSInfo'' \<mapsto> ExifOther True] = None
   \<and> (\<exists>entries lat_value lon_value lat lon.
         [''GPSInfo'' \<mapsto> ExifDict [(TagId 2, GpsSeq [Numeric 48, Numeric 30, Numeric 0]),
            (TagId 4, GpsSeq [Numeric 2, Numeric 15, Numeric 0])]] ''GPSInfo'' = Some (ExifDict entries)
         \<and> decode_gps_info entries (TagName ''GPSLatitude'') = Some lat_value
         \<and> decode_gps_info entries (TagName ''GPSLongitude'') = Some lon_value
         \<and> convert_to_degrees lat_value = Inr lat
         \<and> convert_to_degrees lon_value = Inr lon)"
proof -
  let ?a = "[''GPSInfo'' \<mapsto> ExifDict [(TagId 1, GpsStr ''N''), (TagId 2, GpsSeq [Numeric 48, Numeric 51, Numeric 30])]]"
  let ?b = "[''GPSInfo'' \<mapsto> ExifDict [(TagId 2, GpsSeq [Numeric 48, NonNumeric, Numeric 30]),
          (TagId 4, GpsSeq [Numeric 2, Numeric 17, Numeric 40])]]"
  let ?c = "[''GPSInfo'' \<mapsto> ExifOther True] :: exif_data"
  let ?d = "[''GPSInfo'' \<mapsto> ExifDict [(TagId 2, GpsSeq [Numeric 48, Numeric 30, Numeric 0]),
            (TagId 4, GpsSeq [Numeric 2, Numeric 15, Numeric 0])]]"
  have 1: "get_gps_coordinates Map.empty = None"
    using gps_structural_errors [of Map.empty] by simp
  have 2: "get_gps_coordinates ?a = None"
    using gps_structural_errors [of ?a]
    by (simp add: decode_gps_info_def gps_decode_def GPSTAGS_def)
  have "\<exists>err. convert_to_degrees (GpsSeq [Numeric 48, NonNumeric, Numeric 30]) = Inl err"
    using gps_structural_errors [of ?b] by simp
  then obtain err where "convert_to_degrees (GpsSeq [Numeric 48, NonNumeric, Numeric 30]) = Inl err" ..
  then have 3: "get_gps_coordinates ?b = None"
    using gps_structural_errors [of ?b]
    by (auto simp add: decode_gps_info_def gps_decode_def GPSTAGS_def)
  have 4: "get_gps_coordinates ?c = None"
    using gps_structural_errors [of ?c] by simp
  have "get_gps_coordinates ?d = Some (48.5, 2.25)"
    by (simp add: gps_eval)
  then have 5: "\<exists>entries lat_value lon_value lat lon.
         ?d ''GPSInfo'' = Some (ExifDict entries)
         \<and> decode_gps_info entries (TagName ''GPSLatitude'') = Some lat_value
         \<and> decode_gps_info entries (TagName ''GPSLongitude'') = Some lon_value
         \<and> convert_to_degrees lat_value = Inr lat
         \<and> convert_to_degrees lon_value = Inr lon"
    using gps_structural_errors [of ?d] by blast
  from 1 2 3 4 5 show ?thesis by (intro conjI)
qed

subsection \<open>Only leftmost matches\<close>

lemma re_search_leftmost:
  "re_search m s = Some g \<Longrightarrow> \<exists>i\<le>length s. m (drop i s) = Some g \<and> (\<forall>j<i. m (drop j s) = None)"
proof (induction s)
  case Nil
  then show ?case by simp
next
  case (Cons c cs)
  show ?case
  proof (cases "m (c # cs)")
    case None
    with Cons.prems have "re_search m cs = Some g" by simp
    from Cons.IH[OF this] obtain i where i: "i \<le> length cs" "m (drop i cs) = Some g"
      "\<forall>j<i. m (drop j cs) = None" by blast
    have "\<forall>j<Suc i. m (drop j (c # cs)) = None"
    proof (intro allI impI)
      fix j assume "j < Suc i"
      then show "m (drop j (c # cs)) = None"
        using None i(3) by (cases j) auto
    qed
    with i(1,2) show ?thesis by (intro exI[of _ "Suc i"]) simp
  next
    case (Some g')
    with Cons.prems have "g' = g" by simp
    with Some show ?thesis by (intro exI[of _ 0]) simp
  qed
qed

text \<open>
  Claim C10, as amended. The parser looks at the leftmost match of the 4/2/2 pattern,
  then at the leftmost match of the 8-digit pattern, and returns the date of the first of
  the two that is a calendar date; it returns no date when neither is. A match that
  \<^verbatim>\<open>re.search\<close> returns is the leftmost one: the pattern matches at no earlier position.
  So a date is found only as the leftmost match of one of the two patterns, and when
  neither leftmost match is a calendar date no date is returned, whatever comes later in
  the name.
\<close>

theorem filename_date_leftmost_only:
  "get_date_from_filename fn =
     (case Option.bind (re_search match_ymd fn) date_of_groups of
        Some dt \<Rightarrow> Some dt
      | None \<Rightarrow> Option.bind (re_search match_8 fn) date_of_groups)
   \<and> (\<forall>m g. re_search m fn = Some g \<longrightarrow>
         (\<exists>i\<le>length fn. m (drop i fn) = Some g \<and> (\<forall>j<i. m (drop j fn) = None)))
   \<and> (\<forall>dt. get_date_from_filename fn = Some dt \<longrightarrow>
         (\<exists>g. (re_search match_ymd fn = Some g \<or> re_search match_8 fn = Some g)
              \<and> date_of_groups g = Some dt))
   \<and> ((\<forall>g. re_search match_ymd fn = Some g \<longrightarrow> date_of_groups g = None)
        \<and> (\<forall>g. re_search match_8 fn = Some g \<longrightarrow> date_of_groups g = None) \<longrightarrow>
       get_date_from_filename fn = None)"
proof (intro conjI allI impI)
  show "get_date_from_filename fn =
     (case Option.bind (re_search match_ymd fn) date_of_groups of
        Some dt \<Rightarrow> Some dt
      | None \<Rightarrow> Option.bind (re_search match_8 fn) date_of_groups)"
    by (rule get_date_from_filename_unfold)
next
  fix m :: "string \<Rightarrow> 'a option" and g
  assume "re_search m fn = Some g"
  then show "\<exists>i\<le>length fn. m (drop i fn) = Some g \<and> (\<forall>j<i. m (drop j fn) = None)"
    by (rule re_search_leftmost)
next
  fix dt assume "get_date_from_filename fn = Some dt"
  then show "\<exists>g. (re_search match_ymd fn = Some g \<or> re_search match_8 fn = Some g)
              \<and> date_of_groups g = Some dt"
    by (auto simp add: get_date_from_filename_unfold bind_eq_Some_conv split: option.splits)
next
  assume a: "(\<forall>g. re_search match_ymd fn = Some g \<longrightarrow> date_of_groups g = None)
        \<and> (\<forall>g. re_search match_8 fn = Some g \<longrightarrow> date_of_groups g = None)"
  have "Option.bind (re_search match_ymd fn) date_of_groups = None"
    using a by (cases "re_search match_ymd fn") simp_all
  moreover have "Option.bind (re_search match_8 fn) date_of_groups = None"
    using a by (cases "re_search match_8 fn") simp_all
  ultimately show "get_date_from_filename fn = None"
    by (simp add: get_date_from_filename_unfold)
qed

text \<open>
  The theorem at \<^verbatim>\<open>00000000_20230615.jpg\<close>: both patterns match \<^verbatim>\<open>00000000\<close> first,
  which is no date, and the valid date at position 9 is not found.
\<close>

theorem filename_date_leftmost_only_witness:
  "get_date_from_filename ''00000000_20230615.jpg'' = None
   \<and> match_ymd (drop 9 ''00000000_20230615.jpg'') = Some [''2023'', ''06'', ''15'']
   \<and> re_search match_ymd ''00000000_20230615.jpg'' = Some [''0000'', ''00'', ''00'']
   \<and> (\<exists>i\<le>length ''00000000_20230615.jpg''.
         match_ymd (drop i ''00000000_20230615.jpg'') = Some [''0000'', ''00'', ''00'']
         \<and> (\<forall>j<i. match_ymd (drop j ''00000000_20230615.jpg'') = None))"
proof -
  note t = filename_date_leftmost_only [where fn = "''00000000_20230615.jpg''" and ?'a = "string list"]
  have r: "re_search match_ymd ''00000000_20230615.jpg'' = Some [''0000'', ''00'', ''00'']"
    by (simp add: filename_eval)
  have r8: "re_search match_8 ''00000000_20230615.jpg'' = Some [''00000000'']"
    by (simp add: filename_eval)
  have d1: "date_of_groups [''0000'', ''00'', ''00''] = None"
    by (simp add: filename_eval)
  have d2: "date_of_groups [''00000000''] = None"
    by (simp add: filename_eval)
  have c1: "get_date_from_filename ''00000000_20230615.jpg'' = None"
    using conjunct1 [OF t] unfolding r r8 by (simp add: d1 d2)
  have c2: "match_ymd (drop 9 ''00000000_20230615.jpg'') = Some [''2023'', ''06'', ''15'']"
    by (simp add: filename_eval)
  have c4: "\<exists>i\<le>length ''00000000_20230615.jpg''.
         match_ymd (drop i ''00000000_20230615.jpg'') = Some [''0000'', ''00'', ''00'']
         \<and> (\<forall>j<i. match_ymd (drop j ''00000000_20230615.jpg'') = None)"
    using t [THEN conjunct2, THEN conjunct1, rule_format, OF r] .
  from c1 c2 r c4 show ?thesis by (intro conjI)
qed

text \<open>
  Claim C10 as stated fails: in \<^verbatim>\<open>1234_20230615.jpg\<close> the leftmost match of the 4/2/2
  pattern is \<^verbatim>\<open>1234_2023\<close>, which is no date (month 20), and the valid date after it is
  found all the same, as the leftmost match of the 8-digit pattern.
\<close>

theorem filename_date_later_match_counterexample:
  "re_search match_ymd ''1234_20230615.jpg'' = Some [''1234'', ''20'', ''23'']
   \<and> date_of_groups [''1234'', ''20'', ''23''] = None
   \<and> get_date_from_filename ''1234_20230615.jpg'' =
       Some \<lparr>year = 2023, month = 6, day = 15, hour = 0, minute = 0, second = 0\<rparr>"
  by (simp add: filename_eval)

end
